theory Spec2Isabelle
  imports Complex_Main "HOL-Library.AList"
begin

section \<open>Errors\<close>

text \<open>
  Every Go \<^verbatim>\<open>error\<close> value that the embedded functions can return is a value of this
  type. \<open>SqlConstraint\<close> is the error the database engine reports when a statement violates
  a CHECK, NOT NULL, UNIQUE, PRIMARY KEY or FOREIGN KEY constraint of \<^verbatim>\<open>JobsDBSchema\<close>;
  \<open>ErrNoRows\<close> is \<^verbatim>\<open>sql.ErrNoRows\<close>; \<open>NoMetricDataRepository\<close> is the
  \<^verbatim>\<open>fmt.Errorf("no metric data repository configured for '%s'", ...)\<close> of
  \<^verbatim>\<open>metricdata.go\<close>; \<open>NilDereference\<close> is the run-time panic of reading a field
  through a nil pointer; \<open>Failure\<close> carries the message of an error produced by a
  collaborator that is not part of the sources (metric source adapter, archive reader,
  file system, JSON decoder).
\<close>

datatype error =
    SqlConstraint string
  | ErrNoRows
  | NoMetricDataRepository string
  | NilDereference
  | Failure string

section \<open>The job repository (\<^verbatim>\<open>repository/job.go\<close>)\<close>

subsection \<open>Tables of \<^verbatim>\<open>JobsDBSchema\<close>\<close>

text \<open>
  The columns that the \<^verbatim>\<open>INSERT INTO job\<close> of \<^verbatim>\<open>Start\<close> names, in its order.
  The named parameters \<^verbatim>\<open>:job_id, :user, ...\<close> are read from the \<^verbatim>\<open>schema.JobMeta\<close>
  argument, so a value of this record is also the argument of \<^verbatim>\<open>Start\<close>. The column
  \<^verbatim>\<open>partition\<close> is the field \<open>job_partition\<close>. 64-bit and 32-bit integers are \<open>int\<close>:
  no statement computes with them, apart from the engine choosing the next row id.
\<close>

record job_columns =
  job_id :: int
  user :: string
  project :: string
  cluster :: string
  job_partition :: string
  array_job_id :: int
  num_nodes :: int
  num_hwthreads :: int
  num_acc :: int
  exclusive :: int
  monitoring_status :: int
  smt :: int
  job_state :: string
  start_time :: int
  duration :: int
  resources :: string
  meta_data :: string

type_synonym JobMeta = job_columns

text \<open>
  A row of table \<^verbatim>\<open>job\<close>: the columns above, the primary key \<^verbatim>\<open>id\<close> (field
  \<open>db_id\<close>) and the six aggregate columns written by \<^verbatim>\<open>Archive\<close>. The \<^verbatim>\<open>REAL\<close>
  columns are \<^verbatim>\<open>NOT NULL\<close>, so a stored value is a number, carried as \<open>real\<close>; nothing
  computes with it. Column \<^verbatim>\<open>subcluster\<close> is \<^verbatim>\<open>NOT NULL\<close> and has no default. The
  columns \<^verbatim>\<open>walltime\<close>, \<^verbatim>\<open>net_data_vol_total\<close> and \<^verbatim>\<open>file_data_vol_total\<close>, which have
  defaults and which no embedded statement reads or writes, are left out.
\<close>

record job_row = job_columns +
  db_id :: int
  subcluster :: string
  mem_used_max :: real
  flops_any_avg :: real
  mem_bw_avg :: real
  load_avg :: real
  net_bw_avg :: real
  file_bw_avg :: real

record tag_row =
  tag_rowid :: int
  tag_type :: string
  tag_name :: string

text \<open>
  The database: the three tables, \<^verbatim>\<open>jobtag\<close> as pairs \<open>(job_id, tag_id)\<close>, and the
  names of the indexes on \<^verbatim>\<open>job\<close>. Rows are kept in insertion order.
\<close>

record db =
  job_table :: "job_row list"
  tag_table :: "tag_row list"
  jobtag_table :: "(int \<times> int) list"
  job_indexes :: "string list"

text \<open>The CHECK constraints of table \<^verbatim>\<open>job\<close>.\<close>

definition job_states :: "string list" where
  "job_states = [''running'', ''completed'', ''failed'', ''cancelled'', ''stopped'',
                 ''timeout'', ''preempted'', ''out_of_memory'']"

definition job_checks :: "'a job_columns_scheme \<Rightarrow> bool" where
  "job_checks r \<longleftrightarrow>
     job_state r \<in> set job_states \<and>
     smt r \<in> set [0, 1] \<and>
     exclusive r \<in> set [0, 1, 2] \<and>
     monitoring_status r \<in> set [0, 1, 2, 3]"

text \<open>
  The row id the engine gives to an inserted row of a table with an
  \<^verbatim>\<open>INTEGER PRIMARY KEY\<close>: one more than the largest id in use, and 1 in an empty table.
  This is the value \<^verbatim>\<open>LastInsertId\<close> returns.
\<close>

definition last_insert_rowid :: "int list \<Rightarrow> int" where
  "last_insert_rowid ids = (case ids of [] \<Rightarrow> 1 | x # xs \<Rightarrow> fold max xs x + 1)"

text \<open>
  \<^verbatim>\<open>UPDATE job SET ... WHERE job.id = ?\<close>: the assignments \<open>upd\<close> are applied to every
  row whose id matches. The statement fails when an updated row violates a CHECK constraint,
  and then changes nothing. A statement that matches no row succeeds and changes nothing:
  the engine reports zero affected rows in the \<^verbatim>\<open>sql.Result\<close>, not an error.
\<close>

definition sql_update_job :: "(job_row \<Rightarrow> job_row) \<Rightarrow> int \<Rightarrow> db \<Rightarrow> error + db" where
  "sql_update_job upd i d =
     (if list_all (\<lambda>r. db_id r = i \<longrightarrow> job_checks (upd r)) (job_table d)
      then Inr (d\<lparr>job_table := map (\<lambda>r. if db_id r = i then upd r else r) (job_table d)\<rparr>)
      else Inl (SqlConstraint ''CHECK constraint failed: job''))"

subsection \<open>\<^verbatim>\<open>FindById\<close>\<close>

text \<open>
  \<^verbatim>\<open>SELECT ... FROM job WHERE job.id = ?\<close> through \<^verbatim>\<open>QueryRowx\<close>: the first matching
  row, or \<^verbatim>\<open>sql.ErrNoRows\<close>.
\<close>

definition FindById :: "db \<Rightarrow> int \<Rightarrow> error + job_row" where
  "FindById d jobId =
     (case find (\<lambda>r. db_id r = jobId) (job_table d) of
        None \<Rightarrow> Inl ErrNoRows
      | Some r \<Rightarrow> Inr r)"

subsection \<open>\<^verbatim>\<open>Stop\<close>\<close>

text \<open>
  \<^verbatim>\<open>Stop\<close> builds the update of the three columns and returns the error of
  \<^verbatim>\<open>Exec\<close>; the \<^verbatim>\<open>sql.Result\<close> is discarded (\<^verbatim>\<open>_, err = stmt.RunWith(r.DB).Exec()\<close>).
\<close>

definition Stop :: "db \<Rightarrow> int \<Rightarrow> int \<Rightarrow> string \<Rightarrow> int \<Rightarrow> error + db" where
  "Stop d jobId dur state monitoringStatus =
     sql_update_job
       (\<lambda>r. r\<lparr>job_state := state, duration := dur, monitoring_status := monitoringStatus\<rparr>)
       jobId d"

subsection \<open>\<^verbatim>\<open>Start\<close>\<close>

text \<open>
  \<^verbatim>\<open>INSERT INTO job (...) VALUES (...)\<close>. \<open>sub\<close> is the value that the statement gives
  for column \<^verbatim>\<open>subcluster\<close>, and \<open>None\<close> when the statement does not name the column:
  the column is \<^verbatim>\<open>NOT NULL\<close> and has no default, so the engine then rejects the row
  (\<^verbatim>\<open>NOT NULL constraint failed: job.subcluster\<close>). The other columns take the values of
  \<open>r\<close>, whose id and subcluster are ignored. The statement also fails when the row violates
  a CHECK constraint. Otherwise the row gets the next row id and is appended.
\<close>

definition sql_insert_job :: "string option \<Rightarrow> job_row \<Rightarrow> db \<Rightarrow> error + (int \<times> db)" where
  "sql_insert_job sub r d =
     (case sub of
        None \<Rightarrow> Inl (SqlConstraint ''NOT NULL constraint failed: job.subcluster'')
      | Some s \<Rightarrow>
          if job_checks r
          then (let i = last_insert_rowid (map db_id (job_table d))
                in Inr (i, d\<lparr>job_table := job_table d @ [r\<lparr>db_id := i, subcluster := s\<rparr>]\<rparr>))
          else Inl (SqlConstraint ''CHECK constraint failed: job''))"


subsection \<open>\<^verbatim>\<open>Archive\<close>\<close>

text \<open>
  A \<^verbatim>\<open>float64\<close> is the not-a-number value or a number. Nothing here computes with the
  numbers, so they are carried as \<open>real\<close> and the infinities are not told apart from them.
  The database driver binds a \<^verbatim>\<open>float64\<close> argument as a \<^verbatim>\<open>REAL\<close> value, and the
  not-a-number value as \<^verbatim>\<open>NULL\<close>.
\<close>

datatype float64 = NaN | Num real

fun bind_float64 :: "float64 \<Rightarrow> real option" where
  "bind_float64 NaN = None"
| "bind_float64 (Num x) = Some x"

text \<open>
  \<^verbatim>\<open>schema.JobStatistics\<close>, of which \<^verbatim>\<open>Archive\<close> reads \<^verbatim>\<open>Avg\<close> and \<^verbatim>\<open>Max\<close>
  (field \<open>Max_val\<close>, as \<open>Max\<close> is a constant of HOL).
\<close>

record JobStatistics =
  Avg :: float64
  Min_val :: float64
  Max_val :: float64

text \<open>
  One assignment \<^verbatim>\<open>SET column = ?\<close> to a \<^verbatim>\<open>REAL NOT NULL\<close> column of a row: the engine
  rejects \<^verbatim>\<open>NULL\<close>.
\<close>

definition set_real ::
    "string \<Rightarrow> (real \<Rightarrow> job_row \<Rightarrow> job_row) \<Rightarrow> float64 \<Rightarrow> job_row \<Rightarrow> error + job_row" where
  "set_real column put v r =
     (case bind_float64 v of
        None \<Rightarrow> Inl (SqlConstraint (''NOT NULL constraint failed: job.'' @ column))
      | Some x \<Rightarrow> Inr (put x r))"

text \<open>The \<^verbatim>\<open>switch metric\<close> of \<^verbatim>\<open>Archive\<close>: one more \<^verbatim>\<open>Set\<close> on the statement, or none.\<close>

definition archive_set :: "string \<times> JobStatistics \<Rightarrow> job_row \<Rightarrow> error + job_row" where
  "archive_set ms r =
     (let metric = fst ms; stats = snd ms in
      if metric = ''flops_any''
      then set_real ''flops_any_avg'' (\<lambda>x r. r\<lparr>flops_any_avg := x\<rparr>) (Avg stats) r
      else if metric = ''mem_used''
      then set_real ''mem_used_max'' (\<lambda>x r. r\<lparr>mem_used_max := x\<rparr>) (Max_val stats) r
      else if metric = ''mem_bw''
      then set_real ''mem_bw_avg'' (\<lambda>x r. r\<lparr>mem_bw_avg := x\<rparr>) (Avg stats) r
      else if metric = ''load''
      then set_real ''load_avg'' (\<lambda>x r. r\<lparr>load_avg := x\<rparr>) (Avg stats) r
      else if metric = ''net_bw''
      then set_real ''net_bw_avg'' (\<lambda>x r. r\<lparr>net_bw_avg := x\<rparr>) (Avg stats) r
      else if metric = ''file_bw''
      then set_real ''file_bw_avg'' (\<lambda>x r. r\<lparr>file_bw_avg := x\<rparr>) (Avg stats) r
      else Inr r)"

text \<open>
  The assignments of a statement, applied to a row one after the other. When more than one
  is rejected, the error is that of the first in the statement; which column the engine
  names then is not relied on.
\<close>

fun apply_sets :: "('a \<Rightarrow> job_row \<Rightarrow> error + job_row) \<Rightarrow> 'a list \<Rightarrow> job_row \<Rightarrow> error + job_row" where
  "apply_sets f [] r = Inr r"
| "apply_sets f (x # xs) r =
     (case f x r of
        Inl err \<Rightarrow> Inl err
      | Inr r' \<Rightarrow> apply_sets f xs r')"

text \<open>
  \<^verbatim>\<open>UPDATE job SET ... WHERE job.id = ?\<close> with assignments that the engine may reject:
  as \<open>sql_update_job\<close>, and the statement also fails, changing nothing, when an assignment
  to a matching row is rejected. A statement that matches no row succeeds.
\<close>

fun update_rows ::
    "(job_row \<Rightarrow> error + job_row) \<Rightarrow> int \<Rightarrow> job_row list \<Rightarrow> error + job_row list" where
  "update_rows upd i [] = Inr []"
| "update_rows upd i (r # rs) =
     (if db_id r = i
      then (case upd r of
              Inl err \<Rightarrow> Inl err
            | Inr r' \<Rightarrow>
                if job_checks r'
                then (case update_rows upd i rs of
                        Inl err \<Rightarrow> Inl err
                      | Inr rs' \<Rightarrow> Inr (r' # rs'))
                else Inl (SqlConstraint ''CHECK constraint failed: job''))
      else (case update_rows upd i rs of
              Inl err \<Rightarrow> Inl err
            | Inr rs' \<Rightarrow> Inr (r # rs')))"

definition sql_update_job_values ::
    "(job_row \<Rightarrow> error + job_row) \<Rightarrow> int \<Rightarrow> db \<Rightarrow> error + db" where
  "sql_update_job_values upd i d =
     (case update_rows upd i (job_table d) of
        Inl err \<Rightarrow> Inl err
      | Inr rows \<Rightarrow> Inr (d\<lparr>job_table := rows\<rparr>))"

text \<open>
  \<^verbatim>\<open>metricStats\<close> is a Go map; it is given as the list of its entries in the order in
  which \<^verbatim>\<open>range\<close> happens to visit them (its keys are distinct).
\<close>

definition Archive :: "db \<Rightarrow> int \<Rightarrow> int \<Rightarrow> (string \<times> JobStatistics) list \<Rightarrow> error + db" where
  "Archive d jobId monitoringStatus metricStats =
     sql_update_job_values
       (\<lambda>r. apply_sets archive_set metricStats (r\<lparr>monitoring_status := monitoringStatus\<rparr>))
       jobId d"

subsection \<open>Tags\<close>

text \<open>
  \<^verbatim>\<open>INSERT INTO tag (tag_type, tag_name)\<close>, subject to
  \<^verbatim>\<open>CONSTRAINT be_unique UNIQUE (tag_type, tag_name)\<close>.
\<close>

definition sql_insert_tag :: "string \<Rightarrow> string \<Rightarrow> db \<Rightarrow> error + (int \<times> db)" where
  "sql_insert_tag tagType tagName d =
     (if list_ex (\<lambda>t. tag_type t = tagType \<and> tag_name t = tagName) (tag_table d)
      then Inl (SqlConstraint ''UNIQUE constraint failed: tag.tag_type, tag.tag_name'')
      else (let i = last_insert_rowid (map tag_rowid (tag_table d))
            in Inr (i, d\<lparr>tag_table := tag_table d @
                         [\<lparr>tag_rowid = i, tag_type = tagType, tag_name = tagName\<rparr>]\<rparr>)))"

text \<open>
  \<^verbatim>\<open>INSERT INTO jobtag (job_id, tag_id)\<close>, subject to the primary key
  \<^verbatim>\<open>(job_id, tag_id)\<close> and the two foreign keys.
\<close>

definition sql_insert_jobtag :: "int \<Rightarrow> int \<Rightarrow> db \<Rightarrow> error + db" where
  "sql_insert_jobtag jobId tagId d =
     (if (jobId, tagId) \<in> set (jobtag_table d)
      then Inl (SqlConstraint ''UNIQUE constraint failed: jobtag.job_id, jobtag.tag_id'')
      else if jobId \<notin> set (map db_id (job_table d)) \<or> tagId \<notin> set (map tag_rowid (tag_table d))
      then Inl (SqlConstraint ''FOREIGN KEY constraint failed'')
      else Inr (d\<lparr>jobtag_table := jobtag_table d @ [(jobId, tagId)]\<rparr>))"

definition AddTag :: "db \<Rightarrow> int \<Rightarrow> int \<Rightarrow> error + db" where
  "AddTag d jobId tagId = sql_insert_jobtag jobId tagId d"

definition CreateTag :: "db \<Rightarrow> string \<Rightarrow> string \<Rightarrow> error + (int \<times> db)" where
  "CreateTag d tagType tagName = sql_insert_tag tagType tagName d"

text \<open>
  \<^verbatim>\<open>TagId\<close>: the id of the first row with that type and name and \<^verbatim>\<open>exists = true\<close>, or
  the zero value of \<^verbatim>\<open>tagId\<close> and \<^verbatim>\<open>exists = false\<close> when \<^verbatim>\<open>Scan\<close> reports an error.
\<close>

definition TagId :: "db \<Rightarrow> string \<Rightarrow> string \<Rightarrow> int \<times> bool" where
  "TagId d tagType tagName =
     (case find (\<lambda>t. tag_type t = tagType \<and> tag_name t = tagName) (tag_table d) of
        None \<Rightarrow> (0, False)
      | Some t \<Rightarrow> (tag_rowid t, True))"

text \<open>
  \<^verbatim>\<open>AddTagOrCreate\<close> returns a pair \<^verbatim>\<open>(tagId, err)\<close>; its last statement
  \<^verbatim>\<open>return tagId, r.AddTag(jobId, tagId)\<close> returns the tag id together with the error of
  \<^verbatim>\<open>AddTag\<close>, so the result is a triple of the id, the error if any, and the database.
\<close>

definition AddTagOrCreate :: "db \<Rightarrow> int \<Rightarrow> string \<Rightarrow> string \<Rightarrow> int \<times> error option \<times> db" where
  "AddTagOrCreate d jobId tagType tagName =
     (let (tagId, exists) = TagId d tagType tagName in
      case (if \<not> exists then CreateTag d tagType tagName else Inr (tagId, d)) of
        Inl err \<Rightarrow> (0, Some err, d)
      | Inr (tagId', d') \<Rightarrow>
          (case AddTag d' jobId tagId' of
             Inl err \<Rightarrow> (tagId', Some err, d')
           | Inr d'' \<Rightarrow> (tagId', None, d'')))"

section \<open>The metric data service (\<^verbatim>\<open>internal/metricdata/metricdata.go\<close>)\<close>

subsection \<open>Data of package \<^verbatim>\<open>schema\<close>\<close>

text \<open>
  Modelled from the spec: the constants of package \<^verbatim>\<open>schema\<close>, which is not part of the
  sources. The lifecycle state of a running job is the string \<^verbatim>\<open>running\<close> of the CHECK
  constraint on \<^verbatim>\<open>job_state\<close>; the monitoring status is the enumeration disabled,
  running-or-archiving, archiving-failed, archiving-succeeded, numbered 0 to 3; the scope of
  a whole node is \<^verbatim>\<open>node\<close>. Only the closed examples depend on the values chosen.
\<close>

type_synonym MetricScope = string

definition JobStateRunning :: string where
  "JobStateRunning = ''running''"

definition MonitoringStatusRunningOrArchiving :: int where
  "MonitoringStatusRunningOrArchiving = 1"

definition MonitoringStatusArchivingSuccessful :: int where
  "MonitoringStatusArchivingSuccessful = 3"

definition MetricScopeNode :: MetricScope where
  "MetricScopeNode = ''node''"

text \<open>The fields of \<^verbatim>\<open>schema.Job\<close> that \<^verbatim>\<open>LoadData\<close> and \<^verbatim>\<open>cacheKey\<close> read.\<close>

record Job =
  ID :: int
  State :: string
  MonitoringStatus :: int
  Cluster :: string

text \<open>
  \<^verbatim>\<open>schema.JobMetric\<close>. The code of this file looks at the number of \<^verbatim>\<open>Series\<close> and at
  whether \<^verbatim>\<open>StatisticsSeries\<close> is nil; what a series and a statistics series hold is left
  open (type variables \<open>'s\<close> and \<open>'t\<close>).
\<close>

record ('s, 't) JobMetric =
  Unit :: string
  Scope :: MetricScope
  Timestep :: int
  Series :: "'s list"
  StatisticsSeries :: "'t option"

text \<open>
  \<^verbatim>\<open>schema.JobData\<close> is \<^verbatim>\<open>map[string]map[MetricScope]*JobMetric\<close>. A Go map is given as
  the list of its entries, keys distinct (\<open>wf_JobData\<close>); \<open>map_of\<close> is the lookup,
  \<open>AList.update\<close> the assignment \<^verbatim>\<open>m[k] = v\<close>, \<open>length\<close> is \<^verbatim>\<open>len\<close>.
\<close>

type_synonym ('s, 't) PerScope = "(MetricScope \<times> ('s, 't) JobMetric) list"

type_synonym ('s, 't) JobData = "(string \<times> ('s, 't) PerScope) list"

definition wf_JobData :: "('s, 't) JobData \<Rightarrow> bool" where
  "wf_JobData jd \<longleftrightarrow>
     distinct (map fst jd) \<and> list_all (\<lambda>entry. distinct (map fst (snd entry))) jd"

text \<open>\<^verbatim>\<open>jd[metric][scope]\<close>, when both keys are present.\<close>

definition lookup2 :: "('s, 't) JobData \<Rightarrow> string \<Rightarrow> MetricScope \<Rightarrow> ('s, 't) JobMetric option" where
  "lookup2 jd metric scope =
     (case map_of jd metric of None \<Rightarrow> None | Some perscope \<Rightarrow> map_of perscope scope)"

subsection \<open>Environment of \<^verbatim>\<open>LoadData\<close>\<close>

text \<open>
  The method \<^verbatim>\<open>LoadData\<close> of a \<^verbatim>\<open>MetricDataRepository\<close>: it returns a pair of data and
  error, and both may be present. The context argument is left out.
\<close>

type_synonym ('s, 't) MetricDataRepository =
  "Job \<Rightarrow> string list \<Rightarrow> MetricScope list \<Rightarrow> ('s, 't) JobData \<times> error option"

text \<open>
  The package-level variables and the functions of other packages that \<^verbatim>\<open>LoadData\<close> and
  \<^verbatim>\<open>prepareJobData\<close> use, none of which is part of the sources:
  \<^item> \<open>useArchive\<close> and \<open>metricDataRepos\<close>, set by \<^verbatim>\<open>Init\<close>;
  \<^item> \<open>GetCluster\<close>: the metric names of \<^verbatim>\<open>config.GetCluster(name).MetricConfig\<close>, \<open>None\<close>
    when \<^verbatim>\<open>GetCluster\<close> returns nil;
  \<^item> \<open>loadFromArchive\<close>;
  \<^item> the methods \<^verbatim>\<open>JobData.Size\<close>, \<^verbatim>\<open>JobMetric.AddStatisticsSeries\<close> and
    \<^verbatim>\<open>JobData.AddNodeScope\<close>; the last two change their receiver in place and are functions
    from the old value to the new one.
\<close>

record ('s, 't) env =
  useArchive :: bool
  metricDataRepos :: "string \<rightharpoonup> ('s, 't) MetricDataRepository"
  GetCluster :: "string \<rightharpoonup> string list"
  loadFromArchive :: "Job \<Rightarrow> error + ('s, 't) JobData"
  Size :: "('s, 't) JobData \<Rightarrow> int"
  AddStatisticsSeries :: "('s, 't) JobMetric \<Rightarrow> ('s, 't) JobMetric"
  AddNodeScope :: "string \<Rightarrow> ('s, 't) JobData \<Rightarrow> ('s, 't) JobData"

text \<open>
  What \<^verbatim>\<open>LoadData\<close> does besides returning: calling the adapter of a cluster, reading the
  archive, writing a line to the error log.
\<close>

datatype event =
    AdapterLoadData string "string list" "MetricScope list"
  | ArchiveLoad int
  | LogPartialError error

subsection \<open>\<^verbatim>\<open>prepareJobData\<close>\<close>

definition maxSeriesSize :: nat where
  "maxSeriesSize = 15"

text \<open>The first loop of \<^verbatim>\<open>prepareJobData\<close>, over every scope of every metric.\<close>

definition addStatistics :: "('s, 't) env \<Rightarrow> ('s, 't) JobData \<Rightarrow> ('s, 't) JobData" where
  "addStatistics e jobData =
     map (\<lambda>(metric, scopes).
            (metric,
             map (\<lambda>(scope, jm).
                    (scope,
                     if StatisticsSeries jm \<noteq> None \<or> length (Series jm) \<le> maxSeriesSize
                     then jm
                     else AddStatisticsSeries e jm))
                 scopes))
         jobData"

definition prepareJobData ::
    "('s, 't) env \<Rightarrow> Job \<Rightarrow> ('s, 't) JobData \<Rightarrow> MetricScope list \<Rightarrow> ('s, 't) JobData" where
  "prepareJobData e job jobData scopes =
     (let jobData' = addStatistics e jobData;
          nodeScopeRequested = fold (\<lambda>scope b. if scope = MetricScopeNode then True else b) scopes False
      in if nodeScopeRequested
         then AddNodeScope e ''mem_bw'' (AddNodeScope e ''flops_any'' jobData')
         else jobData')"

subsection \<open>\<^verbatim>\<open>LoadData\<close>\<close>

text \<open>\<^verbatim>\<open>time.Duration\<close> counts nanoseconds.\<close>

definition Minute :: int where
  "Minute = 60 * 1000000000"

definition Hour :: int where
  "Hour = 60 * Minute"

definition ttl_of :: "Job \<Rightarrow> int" where
  "ttl_of job = (if State job = JobStateRunning then 2 * Minute else 5 * Hour)"

text \<open>
  The trimming of archived data (the block under the comment
  \<^verbatim>\<open>Avoid sending unrequested data to the client\<close>). A nil slice is \<open>None\<close>.
\<close>

definition trim_scopes :: "MetricScope list \<Rightarrow> ('s, 't) PerScope \<Rightarrow> ('s, 't) PerScope" where
  "trim_scopes scopes perscope =
     (if length perscope > 1
      then (let subset = fold (\<lambda>scope sub. case map_of perscope scope of
                                              Some jm \<Rightarrow> AList.update scope jm sub
                                            | None \<Rightarrow> sub) scopes []
            in if length subset > 0 then subset else perscope)
      else perscope)"

definition trim_archive ::
    "string list option \<Rightarrow> MetricScope list option \<Rightarrow> ('s, 't) JobData \<Rightarrow> ('s, 't) JobData" where
  "trim_archive metrics scopes jd =
     (if metrics \<noteq> None \<or> scopes \<noteq> None
      then (let metrics' = (case metrics of None \<Rightarrow> map fst jd | Some ms \<Rightarrow> ms);
                scopes' = (case scopes of None \<Rightarrow> [] | Some ss \<Rightarrow> ss)
            in fold (\<lambda>metric res. case map_of jd metric of
                                     Some perscope \<Rightarrow> AList.update metric (trim_scopes scopes' perscope) res
                                   | None \<Rightarrow> res) metrics' [])
      else jd)"

text \<open>
  The two defaults of the live path: \<^verbatim>\<open>if scopes == nil { scopes = append(scopes,
  schema.MetricScopeNode) }\<close>, and for a nil metric list the names of all metrics configured
  for the cluster. Reading \<^verbatim>\<open>cluster.MetricConfig\<close> through the nil pointer that
  \<^verbatim>\<open>config.GetCluster\<close> returns for an unknown cluster panics, which is the outcome
  \<open>Inl NilDereference\<close>.
\<close>

definition live_scopes :: "MetricScope list option \<Rightarrow> MetricScope list" where
  "live_scopes scopes = (case scopes of None \<Rightarrow> [MetricScopeNode] | Some ss \<Rightarrow> ss)"

definition live_metrics :: "('s, 't) env \<Rightarrow> Job \<Rightarrow> string list option \<Rightarrow> error + string list" where
  "live_metrics e job metrics =
     (case metrics of
        Some ms \<Rightarrow> Inr ms
      | None \<Rightarrow> (case GetCluster e (Cluster job) of
                   None \<Rightarrow> Inl NilDereference
                 | Some names \<Rightarrow> Inr names))"

text \<open>
  The closure that \<^verbatim>\<open>LoadData\<close> hands to \<^verbatim>\<open>cache.Get\<close>. It returns the value to cache
  (an error or the data), the time to live and the size; the fourth component lists the
  events in the order in which they happen. On the archive path \<^verbatim>\<open>scopes\<close> stays as it
  was passed, and a nil slice is ranged over as an empty one.
\<close>

definition LoadData_compute ::
    "('s, 't) env \<Rightarrow> Job \<Rightarrow> string list option \<Rightarrow> MetricScope list option
       \<Rightarrow> (error + ('s, 't) JobData) \<times> int \<times> int \<times> event list" where
  "LoadData_compute e job metrics scopes =
     (if State job = JobStateRunning \<or>
         MonitoringStatus job = MonitoringStatusRunningOrArchiving \<or>
         \<not> useArchive e
      then
        (case metricDataRepos e (Cluster job) of
           None \<Rightarrow> (Inl (NoMetricDataRepository (Cluster job)), 0, 0, [])
         | Some repo \<Rightarrow>
             (let scopes' = live_scopes scopes in
              case live_metrics e job metrics of
                Inl panic \<Rightarrow> (Inl panic, 0, 0, [])
              | Inr metrics' \<Rightarrow>
                  (let (jd, err) = repo job metrics' scopes';
                       call = AdapterLoadData (Cluster job) metrics' scopes';
                       proceed = (\<lambda>logged. (Inr (prepareJobData e job jd scopes'),
                                             ttl_of job, Size e jd, call # logged))
                   in case err of
                        None \<Rightarrow> proceed []
                      | Some er \<Rightarrow>
                          if length jd \<noteq> 0
                          then proceed [LogPartialError er]
                          else (Inl er, 0, 0, [call]))))
      else
        (case loadFromArchive e job of
           Inl err \<Rightarrow> (Inl err, 0, 0, [ArchiveLoad (ID job)])
         | Inr jd \<Rightarrow>
             (Inr (prepareJobData e job (trim_archive metrics scopes jd)
                     (case scopes of None \<Rightarrow> [] | Some ss \<Rightarrow> ss)),
              ttl_of job, 1, [ArchiveLoad (ID job)])))"

text \<open>The value and the events of a run of the closure.\<close>

definition computed_value ::
    "('s, 't) env \<Rightarrow> Job \<Rightarrow> string list option \<Rightarrow> MetricScope list option
       \<Rightarrow> error + ('s, 't) JobData" where
  "computed_value e job metrics scopes = fst (LoadData_compute e job metrics scopes)"

definition computed_events ::
    "('s, 't) env \<Rightarrow> Job \<Rightarrow> string list option \<Rightarrow> MetricScope list option \<Rightarrow> event list" where
  "computed_events e job metrics scopes = snd (snd (snd (LoadData_compute e job metrics scopes)))"

text \<open>
  \<^verbatim>\<open>cacheKey\<close> is \<^verbatim>\<open>fmt.Sprintf("%d(%s):[%v],[%v]", job.ID, job.State, metrics, scopes)\<close>:
  the id in decimal, the state, and each of the two slices as its elements separated by
  blanks, in brackets. A nil slice and an empty one both print as \<^verbatim>\<open>[]\<close>. The key holds
  neither the monitoring status of the job nor \<^verbatim>\<open>useArchive\<close>.
\<close>

definition digit :: "nat \<Rightarrow> char" where
  "digit d = ''0123456789'' ! d"

function decimal :: "nat \<Rightarrow> string" where
  "decimal n = (if n < 10 then [digit n] else decimal (n div 10) @ [digit (n mod 10)])"
  by pat_completeness auto

termination decimal
  by (relation "measure (\<lambda>n. n)") auto

declare decimal.simps [simp del]

definition fmt_d :: "int \<Rightarrow> string" where
  "fmt_d i = (if i < 0 then CHR ''-'' # decimal (nat (- i)) else decimal (nat i))"

fun join_blank :: "string list \<Rightarrow> string" where
  "join_blank [] = []"
| "join_blank [x] = x"
| "join_blank (x # y # ys) = x @ '' '' @ join_blank (y # ys)"

definition fmt_v :: "string list option \<Rightarrow> string" where
  "fmt_v xs = ''['' @ join_blank (case xs of None \<Rightarrow> [] | Some ys \<Rightarrow> ys) @ '']''"

definition cacheKey :: "Job \<Rightarrow> string list option \<Rightarrow> MetricScope list option \<Rightarrow> string" where
  "cacheKey job metrics scopes =
     fmt_d (ID job) @ ''('' @ State job @ ''):['' @ fmt_v metrics @ ''],['' @ fmt_v scopes @ '']''"

text \<open>
  Modelled from the spec: the cache of package \<^verbatim>\<open>lrucache\<close>, which is not part of the
  sources. \<^verbatim>\<open>Get(key, computeValue)\<close> returns the value of the entry of the key when there
  is one and its time to live has not elapsed, and that entry becomes the most recently
  used one. Otherwise it runs \<^verbatim>\<open>computeValue\<close>, which returns a value, a time to live and
  a size; the value replaces the entry of the key, as the most recently used one, and as
  long as the sizes add up to more than the capacity the least recently used entry is
  evicted. A value stored with time to live 0 is never returned again.

  A cache is the list of its entries, the most recently used first, at most one for a key;
  \<open>expiration\<close> is the time at which the entry ceases to be returned. One call is one step:
  calls do not overlap, and the reading of the clock is the argument \<open>now\<close>, in nanoseconds.
  The third component of the result lists the events of the call, none when the closure
  did not run. The capacity is that of \<^verbatim>\<open>lrucache.New(128 * 1024 * 1024)\<close>.
\<close>

record 'v cacheEntry =
  entry_key :: string
  entry_value :: 'v
  expiration :: int
  entry_size :: int

type_synonym 'v cache = "'v cacheEntry list"

definition maxmemory :: int where
  "maxmemory = 128 * 1024 * 1024"

definition cache_lookup :: "'v cache \<Rightarrow> int \<Rightarrow> string \<Rightarrow> 'v option" where
  "cache_lookup c now k =
     (case find (\<lambda>en. entry_key en = k) c of
        None \<Rightarrow> None
      | Some en \<Rightarrow> if now < expiration en then Some (entry_value en) else None)"

fun drop_lru :: "int \<Rightarrow> 'v cacheEntry list \<Rightarrow> 'v cacheEntry list" where
  "drop_lru cap [] = []"
| "drop_lru cap (en # ens) =
     (if sum_list (map entry_size (en # ens)) > cap then drop_lru cap ens else en # ens)"

definition evict :: "int \<Rightarrow> 'v cache \<Rightarrow> 'v cache" where
  "evict cap c = rev (drop_lru cap (rev c))"

definition cache_Get ::
    "'v cache \<Rightarrow> int \<Rightarrow> string \<Rightarrow> (unit \<Rightarrow> 'v \<times> int \<times> int \<times> event list)
       \<Rightarrow> 'v \<times> 'v cache \<times> event list" where
  "cache_Get c now k computeValue =
     (let others = filter (\<lambda>en. entry_key en \<noteq> k) c;
          compute = (\<lambda>u. let (v, ttl, sz, evs) = computeValue ()
                         in (v,
                             evict maxmemory
                               (\<lparr>entry_key = k, entry_value = v, expiration = now + ttl,
                                 entry_size = sz\<rparr> # others),
                             evs))
      in case find (\<lambda>en. entry_key en = k) c of
           None \<Rightarrow> compute ()
         | Some en \<Rightarrow>
             if now < expiration en
             then (entry_value en, en # others, [])
             else compute ())"

text \<open>
  \<^verbatim>\<open>LoadData\<close>: the value that the cache gives for the key, returned as \<^verbatim>\<open>(nil, err)\<close> or
  \<^verbatim>\<open>(data, nil)\<close>, with the cache after the call and the events of the call. The entries
  that \<^verbatim>\<open>loadFromArchive\<close> keeps in the same cache under keys of its own are not shown.
  A panic of the closure unwinds through \<^verbatim>\<open>cache.Get\<close> and \<^verbatim>\<open>LoadData\<close>; here it is the
  result \<open>Inl NilDereference\<close>, which has time to live 0 and is never returned from the
  cache.
\<close>

definition LoadData ::
    "(error + ('s, 't) JobData) cache \<Rightarrow> int \<Rightarrow> ('s, 't) env \<Rightarrow> Job \<Rightarrow> string list option
       \<Rightarrow> MetricScope list option
       \<Rightarrow> (error + ('s, 't) JobData) \<times> (error + ('s, 't) JobData) cache \<times> event list" where
  "LoadData c now e job metrics scopes =
     cache_Get c now (cacheKey job metrics scopes) (\<lambda>u. LoadData_compute e job metrics scopes)"

definition LoadData_result ::
    "(error + ('s, 't) JobData) cache \<Rightarrow> int \<Rightarrow> ('s, 't) env \<Rightarrow> Job \<Rightarrow> string list option
       \<Rightarrow> MetricScope list option \<Rightarrow> error + ('s, 't) JobData" where
  "LoadData_result c now e job metrics scopes = fst (LoadData c now e job metrics scopes)"

definition LoadData_events ::
    "(error + ('s, 't) JobData) cache \<Rightarrow> int \<Rightarrow> ('s, 't) env \<Rightarrow> Job \<Rightarrow> string list option
       \<Rightarrow> MetricScope list option \<Rightarrow> event list" where
  "LoadData_events c now e job metrics scopes = snd (snd (LoadData c now e job metrics scopes))"




section \<open>Bulk import (\<^verbatim>\<open>InitDB\<close>)\<close>

subsection \<open>The archive directory\<close>

text \<open>
  The job archive as \<^verbatim>\<open>os.ReadDir\<close> shows it: a tree of regular files and directories,
  each with its name; the entries of a directory come in the order in which
  \<^verbatim>\<open>os.ReadDir\<close> returns them. Reading a regular file as a directory fails.
\<close>

datatype dirent = File string | Dir string "dirent list"

fun entry_name :: "dirent \<Rightarrow> string" where
  "entry_name (File n) = n"
| "entry_name (Dir n es) = n"

fun IsDir :: "dirent \<Rightarrow> bool" where
  "IsDir (File n) = False"
| "IsDir (Dir n es) = True"

fun IsRegular :: "dirent \<Rightarrow> bool" where
  "IsRegular (File n) = True"
| "IsRegular (Dir n es) = False"

fun ReadDir :: "dirent \<Rightarrow> error + dirent list" where
  "ReadDir (File n) = Inl (Failure (n @ '': not a directory''))"
| "ReadDir (Dir n es) = Inr es"

subsection \<open>Statements of the import\<close>

text \<open>
  \<^verbatim>\<open>JobsDBSchema\<close>: three \<^verbatim>\<open>DROP TABLE IF EXISTS\<close>, then three \<^verbatim>\<open>CREATE TABLE\<close>.
  Dropping a table removes its rows and, with \<^verbatim>\<open>job\<close>, the indexes on it; the table
  created afterwards is empty.
\<close>

definition drop_jobtag :: "db \<Rightarrow> db" where
  "drop_jobtag d = d\<lparr>jobtag_table := []\<rparr>"

definition drop_job :: "db \<Rightarrow> db" where
  "drop_job d = d\<lparr>job_table := [], job_indexes := []\<rparr>"

definition drop_tag :: "db \<Rightarrow> db" where
  "drop_tag d = d\<lparr>tag_table := []\<rparr>"

definition exec_JobsDBSchema :: "db \<Rightarrow> db" where
  "exec_JobsDBSchema d = drop_tag (drop_job (drop_jobtag d))"

text \<open>The database with three empty tables and no index.\<close>

definition empty_db :: db where
  "empty_db = \<lparr>job_table = [], tag_table = [], jobtag_table = [], job_indexes = []\<rparr>"

text \<open>\<^verbatim>\<open>JobsDbIndexes\<close>: \<^verbatim>\<open>CREATE INDEX\<close> fails when an index of that name exists.\<close>

definition JobsDbIndexes :: "string list" where
  "JobsDbIndexes = [''job_by_user'', ''job_by_starttime'', ''job_by_job_id'', ''job_by_state'']"

definition exec_JobsDbIndexes :: "db \<Rightarrow> error + db" where
  "exec_JobsDbIndexes d =
     (if list_ex (\<lambda>n. n \<in> set (job_indexes d)) JobsDbIndexes
      then Inl (SqlConstraint ''index already exists'')
      else Inr (d\<lparr>job_indexes := job_indexes d @ JobsDbIndexes\<rparr>))"

subsection \<open>\<^verbatim>\<open>loadJob\<close>\<close>

record Tag =
  Type :: string
  Name :: string

text \<open>
  What \<^verbatim>\<open>loadJob\<close> has in hand when it reaches \<^verbatim>\<open>stmt.Exec(job)\<close>: the row to insert
  (its id is chosen by the engine) and the tags of the job.
\<close>

record ArchivedJob =
  job_values :: job_row
  Tags :: "Tag list"

text \<open>
  The insert statement \<^verbatim>\<open>NamedJobInsert\<close> is not part of the sources; it is taken to name
  every column of the row, \<^verbatim>\<open>subcluster\<close> included, with the values decoded from the file.
  The steps of \<^verbatim>\<open>loadJob\<close> that depend on code outside the sources are parameters:
  \<^item> \<open>decodeMeta\<close>: opening and decoding \<^verbatim>\<open>meta.json\<close> in the directory, with the
    aggregate columns that \<^verbatim>\<open>loadJobStat\<close> reads out of the decoded statistics and the two
    \<^verbatim>\<open>json.Marshal\<close> results; it fails when the file is missing or does not parse;
  \<^item> \<open>SanityChecks\<close>: the function of that name.
  A directory is the list of the names on its path.
\<close>

record import_env =
  decodeMeta :: "string list \<Rightarrow> error + ArchivedJob"
  SanityChecks :: "ArchivedJob \<Rightarrow> error option"

text \<open>
  The loop over \<^verbatim>\<open>job.Tags\<close>. \<open>tags\<close> is the map from \<^verbatim>\<open>tag.Name + ":" + tag.Type\<close> to
  the id of the tag row; a return in the middle of the loop keeps what was inserted so far.
\<close>

fun loadTags ::
    "db \<Rightarrow> (string \<rightharpoonup> int) \<Rightarrow> int \<Rightarrow> Tag list \<Rightarrow> error option \<times> db \<times> (string \<rightharpoonup> int)" where
  "loadTags tx tags jobRow [] = (None, tx, tags)"
| "loadTags tx tags jobRow (tag # rest) =
     (let tagstr = Name tag @ '':'' @ Type tag in
      case (case tags tagstr of
              Some tagId \<Rightarrow> Inr (tagId, tx, tags)
            | None \<Rightarrow>
                (case sql_insert_tag (Type tag) (Name tag) tx of
                   Inl err \<Rightarrow> Inl err
                 | Inr (tagId, tx') \<Rightarrow> Inr (tagId, tx', tags(tagstr \<mapsto> tagId)))) of
        Inl err \<Rightarrow> (Some err, tx, tags)
      | Inr (tagId, tx', tags') \<Rightarrow>
          (case sql_insert_jobtag jobRow tagId tx' of
             Inl err \<Rightarrow> (Some err, tx', tags')
           | Inr tx'' \<Rightarrow> loadTags tx'' tags' jobRow rest))"

definition loadJob ::
    "import_env \<Rightarrow> db \<Rightarrow> (string \<rightharpoonup> int) \<Rightarrow> string list
       \<Rightarrow> error option \<times> db \<times> (string \<rightharpoonup> int)" where
  "loadJob e tx tags path =
     (case decodeMeta e path of
        Inl err \<Rightarrow> (Some err, tx, tags)
      | Inr decoded \<Rightarrow>
          (let job = decoded\<lparr>job_values :=
                       (job_values decoded)\<lparr>monitoring_status := MonitoringStatusArchivingSuccessful\<rparr>\<rparr>
           in case SanityChecks e job of
                Some err \<Rightarrow> (Some err, tx, tags)
              | None \<Rightarrow>
                  (case sql_insert_job (Some (subcluster (job_values job))) (job_values job) tx of
                     Inl err \<Rightarrow> (Some err, tx, tags)
                   | Inr (jobRow, tx') \<Rightarrow> loadTags tx' tags jobRow (Tags job))))"

subsection \<open>The walk\<close>

text \<open>
  What \<^verbatim>\<open>InitDB\<close> does to the database and the log, in order. \<open>LoadJob\<close> is a call of
  \<^verbatim>\<open>loadJob\<close> on a directory with its outcome; all insertions happen inside such a call.
\<close>

datatype import_event =
    ExecSchema
  | Begin
  | Commit
  | LoadJob "string list" "error option"
  | LogError "string list" error
  | ExecIndexes

text \<open>
  The variables that the closure \<^verbatim>\<open>handleDirectory\<close> and the loops share: the database as
  committed, the tables as the open transaction sees them, the counter \<^verbatim>\<open>i\<close>, the map
  \<^verbatim>\<open>tags\<close>, and the events so far. \<^verbatim>\<open>Commit\<close> makes the transaction's tables the
  database; \<^verbatim>\<open>Beginx\<close> starts from the database.
\<close>

record import_state =
  st_db :: db
  st_tx :: db
  st_i :: nat
  st_tags :: "string \<rightharpoonup> int"
  st_trace :: "import_event list"

definition commit_begin :: "import_state \<Rightarrow> import_state" where
  "commit_begin st = st\<lparr>st_db := st_tx st, st_trace := st_trace st @ [Commit, Begin]\<rparr>"

definition handleDirectory ::
    "import_env \<Rightarrow> string list \<Rightarrow> import_state \<Rightarrow> error option \<times> import_state" where
  "handleDirectory e filename st =
     (let st1 = (if st_i st mod 100 = 0 then commit_begin st else st);
          (err, tx', tags') = loadJob e (st_tx st1) (st_tags st1) filename
      in (err, st1\<lparr>st_tx := tx', st_tags := tags',
                   st_i := (if err = None then st_i st1 + 1 else st_i st1),
                   st_trace := st_trace st1 @ [LoadJob filename err]\<rparr>))"

text \<open>\<^verbatim>\<open>if err := handleDirectory(p); err != nil { log.Errorf("in %s: %s", p, ...) }\<close>\<close>

definition handle_and_log :: "import_env \<Rightarrow> string list \<Rightarrow> import_state \<Rightarrow> import_state" where
  "handle_and_log e p st =
     (case handleDirectory e p st of
        (None, st') \<Rightarrow> st'
      | (Some err, st') \<Rightarrow> st'\<lparr>st_trace := st_trace st' @ [LogError p err]\<rparr>)"

text \<open>The innermost loop, over the entries of a second-level directory.\<close>

fun walk_startTimeDirs ::
    "import_env \<Rightarrow> string list \<Rightarrow> dirent list \<Rightarrow> import_state \<Rightarrow> import_state" where
  "walk_startTimeDirs e dirpath [] st = st"
| "walk_startTimeDirs e dirpath (startTimeDir # rest) st =
     walk_startTimeDirs e dirpath rest
       (if IsRegular startTimeDir \<and> entry_name startTimeDir = ''meta.json''
        then handle_and_log e dirpath st
        else if IsDir startTimeDir
        then handle_and_log e (dirpath @ [entry_name startTimeDir]) st
        else st)"

fun walk_lvl2Dirs ::
    "import_env \<Rightarrow> string list \<Rightarrow> dirent list \<Rightarrow> import_state \<Rightarrow> error option \<times> import_state" where
  "walk_lvl2Dirs e lvl1path [] st = (None, st)"
| "walk_lvl2Dirs e lvl1path (lvl2Dir # rest) st =
     (case ReadDir lvl2Dir of
        Inl err \<Rightarrow> (Some err, st)
      | Inr startTimeDirs \<Rightarrow>
          walk_lvl2Dirs e lvl1path rest
            (walk_startTimeDirs e (lvl1path @ [entry_name lvl2Dir]) startTimeDirs st))"

fun walk_lvl1Dirs ::
    "import_env \<Rightarrow> string list \<Rightarrow> dirent list \<Rightarrow> import_state \<Rightarrow> error option \<times> import_state" where
  "walk_lvl1Dirs e clusterpath [] st = (None, st)"
| "walk_lvl1Dirs e clusterpath (lvl1Dir # rest) st =
     (if \<not> IsDir lvl1Dir then walk_lvl1Dirs e clusterpath rest st
      else case ReadDir lvl1Dir of
             Inl err \<Rightarrow> (Some err, st)
           | Inr lvl2Dirs \<Rightarrow>
               (case walk_lvl2Dirs e (clusterpath @ [entry_name lvl1Dir]) lvl2Dirs st of
                  (Some err, st') \<Rightarrow> (Some err, st')
                | (None, st') \<Rightarrow> walk_lvl1Dirs e clusterpath rest st'))"

fun walk_clustersDir ::
    "import_env \<Rightarrow> string list \<Rightarrow> dirent list \<Rightarrow> import_state \<Rightarrow> error option \<times> import_state" where
  "walk_clustersDir e archive [] st = (None, st)"
| "walk_clustersDir e archive (clusterDir # rest) st =
     (case ReadDir clusterDir of
        Inl err \<Rightarrow> (Some err, st)
      | Inr lvl1Dirs \<Rightarrow>
          (case walk_lvl1Dirs e (archive @ [entry_name clusterDir]) lvl1Dirs st of
             (Some err, st') \<Rightarrow> (Some err, st')
           | (None, st') \<Rightarrow> walk_clustersDir e archive rest st'))"

subsection \<open>\<^verbatim>\<open>InitDB\<close>\<close>

text \<open>
  The result is the error if any, the database as it is stored when \<^verbatim>\<open>InitDB\<close> returns
  (what the last commit left; a transaction still open at an early return is not part of
  it), and the events. Statements whose failure the tables, the archive tree and the job
  files do not decide (\<^verbatim>\<open>Beginx\<close>, \<^verbatim>\<open>PrepareNamed\<close>, \<^verbatim>\<open>Commit\<close> on a lost connection)
  succeed.
\<close>

definition InitDB :: "import_env \<Rightarrow> dirent \<Rightarrow> db \<Rightarrow> error option \<times> db \<times> import_event list" where
  "InitDB e archive d =
     (let d0 = exec_JobsDBSchema d in
      case ReadDir archive of
        Inl err \<Rightarrow> (Some err, d0, [ExecSchema])
      | Inr clustersDir \<Rightarrow>
          (let st0 = \<lparr>st_db = d0, st_tx = d0, st_i = 0, st_tags = Map.empty,
                     st_trace = [ExecSchema, Begin]\<rparr>
           in case walk_clustersDir e [entry_name archive] clustersDir st0 of
                (Some err, st) \<Rightarrow> (Some err, st_db st, st_trace st)
              | (None, st) \<Rightarrow>
                  (case exec_JobsDbIndexes (st_tx st) of
                     Inl err \<Rightarrow> (Some err, st_tx st, st_trace st @ [Commit])
                   | Inr d' \<Rightarrow> (None, d', st_trace st @ [Commit, ExecIndexes]))))"

text \<open>
  The job directories of an archive, in the order of the walk: for every second-level
  directory, the directory itself for an entry \<^verbatim>\<open>meta.json\<close> that is a regular file, and
  each of its sub-directories.
\<close>

definition job_dirs_of_entries :: "string list \<Rightarrow> dirent list \<Rightarrow> string list list" where
  "job_dirs_of_entries dirpath startTimeDirs =
     concat (map (\<lambda>s. if IsRegular s \<and> entry_name s = ''meta.json'' then [dirpath]
                      else if IsDir s then [dirpath @ [entry_name s]]
                      else []) startTimeDirs)"

fun job_dirs_of_lvl2 :: "string list \<Rightarrow> dirent \<Rightarrow> string list list" where
  "job_dirs_of_lvl2 lvl1path (File n) = []"
| "job_dirs_of_lvl2 lvl1path (Dir n startTimeDirs) = job_dirs_of_entries (lvl1path @ [n]) startTimeDirs"

fun job_dirs_of_lvl1 :: "string list \<Rightarrow> dirent \<Rightarrow> string list list" where
  "job_dirs_of_lvl1 clusterpath (File n) = []"
| "job_dirs_of_lvl1 clusterpath (Dir n lvl2Dirs) =
     concat (map (job_dirs_of_lvl2 (clusterpath @ [n])) lvl2Dirs)"

fun job_dirs_of_cluster :: "string list \<Rightarrow> dirent \<Rightarrow> string list list" where
  "job_dirs_of_cluster archive (File n) = []"
| "job_dirs_of_cluster archive (Dir n lvl1Dirs) =
     concat (map (job_dirs_of_lvl1 (archive @ [n])) lvl1Dirs)"

fun job_dirs :: "dirent \<Rightarrow> string list list" where
  "job_dirs (File n) = []"
| "job_dirs (Dir n clustersDir) = concat (map (job_dirs_of_cluster [n]) clustersDir)"

text \<open>
  An archive every directory of which the walk can read: the root and its entries are
  directories, and so is every entry of a first-level directory. (Regular files beside the
  first-level directories, such as \<^verbatim>\<open>cluster.json\<close>, are skipped by the walk.)
\<close>

fun readable_lvl1 :: "dirent \<Rightarrow> bool" where
  "readable_lvl1 (File n) = True"
| "readable_lvl1 (Dir n lvl2Dirs) = list_all IsDir lvl2Dirs"

fun readable_cluster :: "dirent \<Rightarrow> bool" where
  "readable_cluster (File n) = False"
| "readable_cluster (Dir n lvl1Dirs) = list_all readable_lvl1 lvl1Dirs"

fun readable_archive :: "dirent \<Rightarrow> bool" where
  "readable_archive (File n) = False"
| "readable_archive (Dir n clustersDir) = list_all readable_cluster clustersDir"

text \<open>The directories of the calls of \<^verbatim>\<open>loadJob\<close>, those that failed, and those logged.\<close>

fun loaded_dirs :: "import_event list \<Rightarrow> string list list" where
  "loaded_dirs [] = []"
| "loaded_dirs (LoadJob p r # evs) = p # loaded_dirs evs"
| "loaded_dirs (ev # evs) = loaded_dirs evs"

fun failed_dirs :: "import_event list \<Rightarrow> (string list \<times> error) list" where
  "failed_dirs [] = []"
| "failed_dirs (LoadJob p (Some err) # evs) = (p, err) # failed_dirs evs"
| "failed_dirs (ev # evs) = failed_dirs evs"

fun logged_dirs :: "import_event list \<Rightarrow> (string list \<times> error) list" where
  "logged_dirs [] = []"
| "logged_dirs (LogError p err # evs) = (p, err) # logged_dirs evs"
| "logged_dirs (ev # evs) = logged_dirs evs"

text \<open>The directories whose call of \<^verbatim>\<open>loadJob\<close> returned no error.\<close>

fun succeeded_dirs :: "import_event list \<Rightarrow> string list list" where
  "succeeded_dirs [] = []"
| "succeeded_dirs (LoadJob p None # evs) = p # succeeded_dirs evs"
| "succeeded_dirs (ev # evs) = succeeded_dirs evs"

text \<open>
  Row \<open>r\<close> is the job of directory \<open>p\<close>: the directory's \<^verbatim>\<open>meta.json\<close> decodes, the job
  passes \<^verbatim>\<open>SanityChecks\<close> and the CHECK constraints of the table, and the row has the
  decoded values, monitoring status archiving-successful, and some id.
\<close>

definition imported_from :: "import_env \<Rightarrow> string list \<Rightarrow> job_row \<Rightarrow> bool" where
  "imported_from e p r =
     (case decodeMeta e p of
        Inl err \<Rightarrow> False
      | Inr decoded \<Rightarrow>
          (let job = decoded\<lparr>job_values :=
                       (job_values decoded)\<lparr>monitoring_status := MonitoringStatusArchivingSuccessful\<rparr>\<rparr>
           in SanityChecks e job = None \<and> job_checks (job_values job) \<and>
              r = (job_values job)\<lparr>db_id := db_id r\<rparr>))"

text \<open>
  Directory \<open>p\<close> holds a job that can be inserted: its \<^verbatim>\<open>meta.json\<close> decodes and the job
  passes \<^verbatim>\<open>SanityChecks\<close> and the CHECK constraints of the table.
\<close>

definition loadable :: "import_env \<Rightarrow> string list \<Rightarrow> bool" where
  "loadable e p =
     (case decodeMeta e p of
        Inl err \<Rightarrow> False
      | Inr decoded \<Rightarrow>
          (let job = decoded\<lparr>job_values :=
                       (job_values decoded)\<lparr>monitoring_status := MonitoringStatusArchivingSuccessful\<rparr>\<rparr>
           in SanityChecks e job = None \<and> job_checks (job_values job)))"

text \<open>The job of directory \<open>p\<close> is stored in \<open>d\<close>.\<close>

definition stored_job :: "import_env \<Rightarrow> db \<Rightarrow> string list \<Rightarrow> bool" where
  "stored_job e d p = list_ex (imported_from e p) (job_table d)"

text \<open>
  Events of the walk proper: the schema and the indexes are not touched, and the failures
  logged are the failures of \<^verbatim>\<open>loadJob\<close>, in order.
\<close>

definition walk_events :: "import_event list \<Rightarrow> bool" where
  "walk_events evs \<longleftrightarrow>
     ExecSchema \<notin> set evs \<and> ExecIndexes \<notin> set evs \<and> logged_dirs evs = failed_dirs evs"

text \<open>
  A stretch of the walk from state \<open>st\<close> to state \<open>st'\<close> that calls \<^verbatim>\<open>loadJob\<close> on the
  directories \<open>ps\<close>: it appends events of the walk, the jobs loaded without error and the
  jobs of all directories that hold a job that can be inserted are in the transaction's
  tables at the end, the rows that were there are still there, every new row is the job of
  one of the directories, and the indexes are as before.
\<close>

definition visits :: "import_env \<Rightarrow> import_state \<Rightarrow> import_state \<Rightarrow> string list list \<Rightarrow> bool" where
  "visits e st st' ps \<longleftrightarrow>
     (\<exists>evs. st_trace st' = st_trace st @ evs \<and> walk_events evs \<and> loaded_dirs evs = ps \<and>
            list_all (stored_job e (st_tx st')) (succeeded_dirs evs)) \<and>
     list_all (stored_job e (st_tx st')) (filter (loadable e) ps) \<and>
     job_indexes (st_tx st') = job_indexes (st_tx st) \<and>
     set (job_table (st_tx st)) \<subseteq> set (job_table (st_tx st')) \<and>
     (\<forall>r\<in>set (job_table (st_tx st')).
        r \<in> set (job_table (st_tx st)) \<or> list_ex (\<lambda>p. imported_from e p r) ps)"

section \<open>The claims' descriptions of results\<close>

text \<open>
  The statistic that \<^verbatim>\<open>Archive\<close> reads from an entry of \<^verbatim>\<open>metricStats\<close>: the \<^verbatim>\<open>Max\<close>
  for \<^verbatim>\<open>mem_used\<close>, the \<^verbatim>\<open>Avg\<close> for the five other mapped metrics, none for any other
  name.
\<close>

definition mapped_metrics :: "string list" where
  "mapped_metrics = [''flops_any'', ''mem_used'', ''mem_bw'', ''load'', ''net_bw'', ''file_bw'']"

definition mapped_value :: "string \<times> JobStatistics \<Rightarrow> float64 option" where
  "mapped_value entry =
     (if fst entry = ''mem_used'' then Some (Max_val (snd entry))
      else if fst entry \<in> set mapped_metrics then Some (Avg (snd entry))
      else None)"

text \<open>
  The row that \<^verbatim>\<open>Archive\<close> is said to leave behind: the monitoring status is set; each of
  the six aggregate columns takes the \<^verbatim>\<open>Avg\<close> (for \<^verbatim>\<open>mem_used_max\<close> the \<^verbatim>\<open>Max\<close>) of the
  entry of its metric when \<^verbatim>\<open>metricStats\<close> has one with a number there, and keeps its value
  otherwise; no other column changes.
\<close>

definition stat_col ::
    "(string \<times> JobStatistics) list \<Rightarrow> string \<Rightarrow> (JobStatistics \<Rightarrow> float64) \<Rightarrow> real \<Rightarrow> real" where
  "stat_col metricStats metric f old =
     (case map_of metricStats metric of
        None \<Rightarrow> old
      | Some stats \<Rightarrow> (case f stats of NaN \<Rightarrow> old | Num x \<Rightarrow> x))"

definition archived_row :: "(string \<times> JobStatistics) list \<Rightarrow> int \<Rightarrow> job_row \<Rightarrow> job_row" where
  "archived_row metricStats ms r =
     r\<lparr>monitoring_status := ms,
       flops_any_avg := stat_col metricStats ''flops_any'' Avg (flops_any_avg r),
       mem_used_max := stat_col metricStats ''mem_used'' Max_val (mem_used_max r),
       mem_bw_avg := stat_col metricStats ''mem_bw'' Avg (mem_bw_avg r),
       load_avg := stat_col metricStats ''load'' Avg (load_avg r),
       net_bw_avg := stat_col metricStats ''net_bw'' Avg (net_bw_avg r),
       file_bw_avg := stat_col metricStats ''file_bw'' Avg (file_bw_avg r)\<rparr>"

text \<open>
  Which scopes of an archived metric the trimming step keeps: when the metric is archived
  with more than one scope and at least one of the requested scopes is among them, the
  requested scopes; otherwise all of them.
\<close>

definition scope_kept :: "MetricScope list \<Rightarrow> ('s, 't) PerScope \<Rightarrow> MetricScope \<Rightarrow> bool" where
  "scope_kept scopes perscope scope =
     (if 1 < length perscope \<and> list_ex (\<lambda>s. map_of perscope s \<noteq> None) scopes
      then scope \<in> set scopes
      else True)"

section \<open>Example data\<close>

text \<open>
  The start request of the repository's REST test (job 123 of \<^verbatim>\<open>testcluster\<close>, started at
  123456789), and tables that hold this job as row 1, running, in subcluster \<^verbatim>\<open>sc1\<close>.
\<close>

definition ex_empty_db :: db where
  "ex_empty_db = \<lparr>job_table = [], tag_table = [], jobtag_table = [], job_indexes = []\<rparr>"

definition ex_job :: JobMeta where
  "ex_job = \<lparr>job_id = 123, user = ''testuser'', project = ''testproj'', cluster = ''testcluster'',
     job_partition = ''default'', array_job_id = 0, num_nodes = 1, num_hwthreads = 8, num_acc = 0,
     exclusive = 1, monitoring_status = 1, smt = 1, job_state = ''running'',
     start_time = 123456789, duration = 0, resources = ''[]'', meta_data = ''{}''\<rparr>"

definition ex_row :: "int \<Rightarrow> JobMeta \<Rightarrow> job_row" where
  "ex_row i job = job_columns.extend job (job_row.fields i ''sc1'' 0 0 0 0 0 0)"

definition ex_db1 :: db where
  "ex_db1 = ex_empty_db\<lparr>job_table := [ex_row 1 ex_job]\<rparr>"

text \<open>
  Statistics for two mapped metrics and one metric without a column, statistics of a
  metric without samples, and the tables after job 123 (row 1) has been given the tag of
  the REST test.
\<close>

definition ex_stats :: "(string \<times> JobStatistics) list" where
  "ex_stats = [(''flops_any'', \<lparr>Avg = Num 2.5, Min_val = Num 1, Max_val = Num 4\<rparr>),
               (''cpu_load'', \<lparr>Avg = NaN, Min_val = NaN, Max_val = NaN\<rparr>),
               (''mem_used'', \<lparr>Avg = Num 32, Min_val = Num 16, Max_val = Num 64\<rparr>)]"

definition ex_stats_nan :: "(string \<times> JobStatistics) list" where
  "ex_stats_nan = [(''flops_any'', \<lparr>Avg = NaN, Min_val = NaN, Max_val = NaN\<rparr>)]"

definition ex_db1_tagged :: db where
  "ex_db1_tagged = ex_db1\<lparr>tag_table := [\<lparr>tag_rowid = 1, tag_type = ''testTagType'',
                                           tag_name = ''testTagName''\<rparr>],
                          jobtag_table := [(1, 1)]\<rparr>"

text \<open>
  The metric data of the REST test (metric \<^verbatim>\<open>load_one\<close> at node scope, one series), a
  record with sixteen series, and an environment for \<^verbatim>\<open>testcluster\<close>: the adapter answers
  with an error and no data when no metric is requested, with data and an error when
  \<^verbatim>\<open>mem_bw\<close> is among the metrics, and with data otherwise; the archive holds the test's
  data; \<^verbatim>\<open>AddStatisticsSeries\<close> attaches the number of series as the statistics series.
\<close>

definition ex_metric :: "(nat, nat) JobMetric" where
  "ex_metric = \<lparr>Unit = ''load'', Scope = ''node'', Timestep = 60, Series = [0], StatisticsSeries = None\<rparr>"

definition ex_data :: "(nat, nat) JobData" where
  "ex_data = [(''load_one'', [(''node'', ex_metric)])]"

definition ex_adapter :: "(nat, nat) MetricDataRepository" where
  "ex_adapter job ms ss =
     (if ms = [] then ([], Some (Failure ''no metrics requested''))
      else if ''mem_bw'' \<in> set ms then (ex_data, Some (Failure ''mem_bw: timeout''))
      else (ex_data, None))"

definition ex_env :: "(nat, nat) env" where
  "ex_env = \<lparr>useArchive = True,
     metricDataRepos = [''testcluster'' \<mapsto> ex_adapter],
     GetCluster = [''testcluster'' \<mapsto> [''load_one'']],
     loadFromArchive = (\<lambda>job. Inr ex_data),
     Size = (\<lambda>jd. int (length jd)),
     AddStatisticsSeries = (\<lambda>jm. jm\<lparr>StatisticsSeries := Some (length (Series jm))\<rparr>),
     AddNodeScope = (\<lambda>k jd. jd)\<rparr>"

definition ex_running :: Job where
  "ex_running = \<lparr>ID = 1, State = ''running'', MonitoringStatus = 1, Cluster = ''testcluster''\<rparr>"


definition ex_completed :: Job where
  "ex_completed = \<lparr>ID = 1, State = ''completed'', MonitoringStatus = 3, Cluster = ''testcluster''\<rparr>"




definition ex_wide :: "(nat, nat) JobMetric" where
  "ex_wide = \<lparr>Unit = ''load'', Scope = ''node'', Timestep = 60, Series = [0..<16], StatisticsSeries = None\<rparr>"

definition ex_wide_data :: "(nat, nat) JobData" where
  "ex_wide_data = [(''load_one'', [(''node'', ex_wide)]), (''mem_bw'', [(''node'', ex_metric)])]"

text \<open>
  An archive with two job directories under \<^verbatim>\<open>testcluster\<close>, beside \<^verbatim>\<open>cluster.json\<close>.
  The \<^verbatim>\<open>meta.json\<close> of job 122 does not parse; that of job 123 decodes to the job of
  the REST test, completed after 1000 seconds, with its tag. A second archive has the
  directory of job 123 alone, and its \<^verbatim>\<open>meta.json\<close> lists the tag of the job twice. The
  last definition is the database after the import of either archive.
\<close>

definition ex_archive :: dirent where
  "ex_archive =
     Dir ''job-archive''
       [Dir ''testcluster''
          [File ''cluster.json'',
           Dir ''0'' [Dir ''122'' [Dir ''123450000'' [File ''meta.json'']],
                      Dir ''123'' [Dir ''123456789'' [File ''meta.json'', File ''data.json'']]]]]"

definition ex_import_env :: import_env where
  "ex_import_env =
     \<lparr>decodeMeta = (\<lambda>p. if p = [''job-archive'', ''testcluster'', ''0'', ''123'', ''123456789'']
                         then Inr \<lparr>job_values = ex_row 0 (ex_job\<lparr>job_state := ''completed'',
                                                                  duration := 1000\<rparr>),
                                   Tags = [\<lparr>Type = ''testTagType'', Name = ''testTagName''\<rparr>]\<rparr>
                         else Inl (Failure ''unexpected end of JSON input'')),
      SanityChecks = (\<lambda>job. None)\<rparr>"

definition ex_archive_dup :: dirent where
  "ex_archive_dup =
     Dir ''job-archive''
       [Dir ''testcluster''
          [Dir ''0'' [Dir ''123'' [Dir ''123456789'' [File ''meta.json'', File ''data.json'']]]]]"

definition ex_import_env_dup :: import_env where
  "ex_import_env_dup =
     \<lparr>decodeMeta = (\<lambda>p. Inr \<lparr>job_values = ex_row 0 (ex_job\<lparr>job_state := ''completed'',
                                                              duration := 1000\<rparr>),
                               Tags = [\<lparr>Type = ''testTagType'', Name = ''testTagName''\<rparr>,
                                       \<lparr>Type = ''testTagType'', Name = ''testTagName''\<rparr>]\<rparr>),
      SanityChecks = (\<lambda>job. None)\<rparr>"

definition ex_imported_db :: db where
  "ex_imported_db =
     \<lparr>job_table = [ex_row 1 (ex_job\<lparr>job_state := ''completed'', duration := 1000,
                                    monitoring_status := 3\<rparr>)],
      tag_table = [\<lparr>tag_rowid = 1, tag_type = ''testTagType'', tag_name = ''testTagName''\<rparr>],
      jobtag_table = [(1, 1)],
      job_indexes = JobsDbIndexes\<rparr>"

section \<open>Properties of the job repository\<close>

subsection \<open>Row ids and lookups\<close>

lemma fold_max_ge: "(a::int) \<le> fold max xs a \<and> (\<forall>x\<in>set xs. x \<le> fold max xs a)"
proof (induction xs arbitrary: a)
  case Nil
  show ?case by simp
next
  case (Cons y ys)
  have "max y a \<le> fold max ys (max y a)" and "\<forall>x\<in>set ys. x \<le> fold max ys (max y a)"
    using Cons.IH [of "max y a"] by simp_all
  then show ?case by auto
qed

lemma last_insert_rowid_fresh: "x \<in> set ids \<Longrightarrow> x < last_insert_rowid ids"
proof (cases ids)
  case Nil
  assume "x \<in> set ids"
  with Nil show ?thesis by simp
next
  case (Cons y ys)
  assume "x \<in> set ids"
  with Cons have "x = y \<or> x \<in> set ys" by simp
  with fold_max_ge [of y ys] have "x \<le> fold max ys y" by auto
  with Cons show ?thesis by (simp add: last_insert_rowid_def)
qed

lemma find_job_map:
  assumes "\<And>r. db_id (upd r) = db_id r"
  shows "find (\<lambda>r. db_id r = j) (map (\<lambda>r. if db_id r = i then upd r else r) rs) =
     (if j = i then map_option upd (find (\<lambda>r. db_id r = i) rs) else find (\<lambda>r. db_id r = j) rs)"
  using assms by (induction rs) auto

lemma map_no_match:
  "\<forall>r\<in>set rs. db_id r \<noteq> i \<Longrightarrow> map (\<lambda>r. if db_id r = i then upd r else r) rs = rs"
  by (induction rs) auto

lemma find_append_fresh:
  "\<forall>r\<in>set rs. \<not> P r \<Longrightarrow> P x \<Longrightarrow> find P (rs @ [x]) = Some x"
  by (induction rs) auto

lemma find_append_other:
  "\<not> P x \<Longrightarrow> find P (rs @ [x]) = find P rs"
  by (induction rs) auto

lemma sql_update_job_no_row:
  assumes "find (\<lambda>r. db_id r = i) (job_table d) = None"
  shows "sql_update_job upd i d = Inr d"
proof -
  from assms have none: "\<forall>r\<in>set (job_table d). db_id r \<noteq> i"
    by (auto simp: find_None_iff)
  then have "list_all (\<lambda>r. db_id r = i \<longrightarrow> job_checks (upd r)) (job_table d)"
    by (auto simp: list_all_iff)
  with none show ?thesis
    by (simp add: sql_update_job_def map_no_match)
qed

lemma sql_update_job_row:
  assumes pk: "distinct (map db_id (job_table d))"
    and row: "find (\<lambda>r. db_id r = i) (job_table d) = Some r"
    and ok: "job_checks (upd r)"
    and keep: "\<And>r. db_id (upd r) = db_id r"
  shows "sql_update_job upd i d =
           Inr (d\<lparr>job_table := map (\<lambda>r. if db_id r = i then upd r else r) (job_table d)\<rparr>)"
proof -
  from row have mem: "r \<in> set (job_table d)" and rid: "db_id r = i"
    by (auto simp: find_Some_iff)
  have "r' = r" if "r' \<in> set (job_table d)" "db_id r' = i" for r'
    using pk mem rid that by (metis distinct_map inj_onD)
  with ok have "list_all (\<lambda>r. db_id r = i \<longrightarrow> job_checks (upd r)) (job_table d)"
    by (auto simp: list_all_iff)
  then show ?thesis by (simp add: sql_update_job_def)
qed

subsection \<open>\<^verbatim>\<open>Stop\<close>\<close>

text \<open>
  Claim C2, as the code has it. \<^verbatim>\<open>Stop\<close> on a database id that identifies no row does
  not fail: the update matches nothing, \<^verbatim>\<open>Exec\<close> reports no error, and the tables are
  left as they were. When the id identifies a row (ids being the primary key) and the new
  values pass the CHECK constraints of the table, \<^verbatim>\<open>Stop\<close> succeeds, that row gets the new
  \<^verbatim>\<open>job_state\<close>, \<^verbatim>\<open>duration\<close> and \<^verbatim>\<open>monitoring_status\<close> and keeps every other column,
  and every other row and table is unchanged.
\<close>

theorem Stop_unknown_id_is_no_error:
  "(FindById d jobId = Inl ErrNoRows \<longrightarrow> Stop d jobId dur state ms = Inr d) \<and>
   (distinct (map db_id (job_table d)) \<and> FindById d jobId = Inr r \<and>
    job_checks (r\<lparr>job_state := state, duration := dur, monitoring_status := ms\<rparr>) \<longrightarrow>
      (\<exists>d'. Stop d jobId dur state ms = Inr d' \<and>
            FindById d' jobId = Inr (r\<lparr>job_state := state, duration := dur, monitoring_status := ms\<rparr>) \<and>
            (\<forall>j. j \<noteq> jobId \<longrightarrow> FindById d' j = FindById d j) \<and>
            tag_table d' = tag_table d \<and> jobtag_table d' = jobtag_table d))"
proof (intro conjI impI)
  assume "FindById d jobId = Inl ErrNoRows"
  then have "find (\<lambda>r. db_id r = jobId) (job_table d) = None"
    by (simp add: FindById_def split: option.splits)
  then show "Stop d jobId dur state ms = Inr d"
    unfolding Stop_def by (rule sql_update_job_no_row)
next
  let ?upd = "\<lambda>r::job_row. r\<lparr>job_state := state, duration := dur, monitoring_status := ms\<rparr>"
  let ?d' = "d\<lparr>job_table := map (\<lambda>r. if db_id r = jobId then ?upd r else r) (job_table d)\<rparr>"
  assume h: "distinct (map db_id (job_table d)) \<and> FindById d jobId = Inr r \<and> job_checks (?upd r)"
  then have row: "find (\<lambda>r. db_id r = jobId) (job_table d) = Some r"
    by (simp add: FindById_def split: option.splits)
  from h have pk: "distinct (map db_id (job_table d))" and ok: "job_checks (?upd r)"
    by blast+
  have stop: "Stop d jobId dur state ms = Inr ?d'"
    unfolding Stop_def using ok
    by (intro sql_update_job_row [where upd = ?upd, OF pk row]) simp_all
  have "FindById ?d' j = (if j = jobId then Inr (?upd r) else FindById d j)" for j
    using row by (simp add: FindById_def find_job_map)
  with stop show "\<exists>d'. Stop d jobId dur state ms = Inr d' \<and>
            FindById d' jobId = Inr (?upd r) \<and>
            (\<forall>j. j \<noteq> jobId \<longrightarrow> FindById d' j = FindById d j) \<and>
            tag_table d' = tag_table d \<and> jobtag_table d' = jobtag_table d"
    by simp
qed

text \<open>
  The theorem at two inputs: id 42 in the empty database, and id 1 in the database that
  holds job 123 as row 1, stopped after 1000 seconds in state \<^verbatim>\<open>completed\<close>.
\<close>

theorem Stop_unknown_id_is_no_error_witness:
  "FindById ex_empty_db 42 = Inl ErrNoRows \<and>
   Stop ex_empty_db 42 1000 ''completed'' 3 = Inr ex_empty_db \<and>
   FindById ex_db1 1 = Inr (ex_row 1 ex_job) \<and>
   (\<exists>d'. Stop ex_db1 1 1000 ''completed'' 3 = Inr d' \<and>
         FindById d' 1 = Inr ((ex_row 1 ex_job)\<lparr>job_state := ''completed'', duration := 1000,
                                                monitoring_status := 3\<rparr>))"
proof -
  have a: "FindById ex_empty_db 42 = Inl ErrNoRows"
    by (simp add: FindById_def ex_empty_db_def)
  have b: "distinct (map db_id (job_table ex_db1))"
    by (simp add: ex_db1_def)
  have c: "FindById ex_db1 1 = Inr (ex_row 1 ex_job)"
    by (simp add: FindById_def ex_db1_def ex_row_def job_columns.defs job_row.defs)
  have d: "job_checks ((ex_row 1 ex_job)\<lparr>job_state := ''completed'', duration := 1000,
                                          monitoring_status := 3\<rparr>)"
    by (simp add: job_checks_def job_states_def ex_row_def ex_job_def job_columns.defs job_row.defs)
  show ?thesis
    using a b c d
      Stop_unknown_id_is_no_error [where d = ex_empty_db and jobId = 42 and dur = 1000
        and state = "''completed''" and ms = 3]
      Stop_unknown_id_is_no_error [where d = ex_db1 and jobId = 1 and r = "ex_row 1 ex_job"
        and dur = 1000 and state = "''completed''" and ms = 3]
    by blast
qed

text \<open>
  Claim C2 as stated fails: the database holds one job, with id 1; \<^verbatim>\<open>Stop\<close> of id 42,
  which identifies no row, returns no error.
\<close>

theorem Stop_unknown_id_counterexample:
  "FindById ex_db1 42 = Inl ErrNoRows \<and> Stop ex_db1 42 1000 ''completed'' 3 = Inr ex_db1"
  by (simp add: FindById_def Stop_def sql_update_job_def ex_db1_def ex_row_def ex_empty_db_def
      job_columns.defs job_row.defs)

subsection \<open>\<^verbatim>\<open>Start\<close>\<close>




subsection \<open>\<^verbatim>\<open>Archive\<close>\<close>

lemma archive_set_unmapped: "fst entry \<notin> set mapped_metrics \<Longrightarrow> archive_set entry r = Inr r"
  by (simp add: archive_set_def mapped_metrics_def)

lemma apply_sets_filter:
  "apply_sets archive_set (filter (\<lambda>entry. fst entry \<in> set mapped_metrics) metricStats) r =
   apply_sets archive_set metricStats r"
proof (induction metricStats arbitrary: r)
  case Nil
  show ?case by simp
next
  case (Cons entry rest)
  show ?case
    by (cases "fst entry \<in> set mapped_metrics")
       (simp_all add: Cons.IH archive_set_unmapped split: sum.splits)
qed

lemma stat_col_Cons:
  "stat_col ((k, st) # rest) m f old =
     (if m = k then (case f st of NaN \<Rightarrow> old | Num x \<Rightarrow> x) else stat_col rest m f old)"
  by (simp add: stat_col_def)

lemma stat_col_absent: "m \<notin> fst ` set rest \<Longrightarrow> stat_col rest m f old = old"
proof -
  assume "m \<notin> fst ` set rest"
  then have "map_of rest m = None" by (simp add: map_of_eq_None_iff)
  then show ?thesis by (simp add: stat_col_def)
qed

lemma archive_set_step:
  assumes absent: "k \<notin> fst ` set rest" and num: "mapped_value (k, st) \<noteq> Some NaN"
  shows "\<exists>r1. archive_set (k, st) r = Inr r1 \<and>
     r1\<lparr>flops_any_avg := stat_col rest ''flops_any'' Avg (flops_any_avg r1),
        mem_used_max := stat_col rest ''mem_used'' Max_val (mem_used_max r1),
        mem_bw_avg := stat_col rest ''mem_bw'' Avg (mem_bw_avg r1),
        load_avg := stat_col rest ''load'' Avg (load_avg r1),
        net_bw_avg := stat_col rest ''net_bw'' Avg (net_bw_avg r1),
        file_bw_avg := stat_col rest ''file_bw'' Avg (file_bw_avg r1)\<rparr> =
     r\<lparr>flops_any_avg := stat_col ((k, st) # rest) ''flops_any'' Avg (flops_any_avg r),
       mem_used_max := stat_col ((k, st) # rest) ''mem_used'' Max_val (mem_used_max r),
       mem_bw_avg := stat_col ((k, st) # rest) ''mem_bw'' Avg (mem_bw_avg r),
       load_avg := stat_col ((k, st) # rest) ''load'' Avg (load_avg r),
       net_bw_avg := stat_col ((k, st) # rest) ''net_bw'' Avg (net_bw_avg r),
       file_bw_avg := stat_col ((k, st) # rest) ''file_bw'' Avg (file_bw_avg r)\<rparr>"
proof -
  consider "k = ''flops_any''" | "k = ''mem_used''" | "k = ''mem_bw''" | "k = ''load''"
    | "k = ''net_bw''" | "k = ''file_bw''" | "k \<notin> set mapped_metrics"
    by (auto simp: mapped_metrics_def)
  then show ?thesis
  proof cases
    case 1
    with num obtain x where "Avg st = Num x"
      by (cases "Avg st") (simp_all add: mapped_value_def mapped_metrics_def)
    with 1 absent show ?thesis
      by (simp add: archive_set_def set_real_def stat_col_Cons stat_col_absent)
  next
    case 2
    with num obtain x where "Max_val st = Num x"
      by (cases "Max_val st") (simp_all add: mapped_value_def mapped_metrics_def)
    with 2 absent show ?thesis
      by (simp add: archive_set_def set_real_def stat_col_Cons stat_col_absent)
  next
    case 3
    with num obtain x where "Avg st = Num x"
      by (cases "Avg st") (simp_all add: mapped_value_def mapped_metrics_def)
    with 3 absent show ?thesis
      by (simp add: archive_set_def set_real_def stat_col_Cons stat_col_absent)
  next
    case 4
    with num obtain x where "Avg st = Num x"
      by (cases "Avg st") (simp_all add: mapped_value_def mapped_metrics_def)
    with 4 absent show ?thesis
      by (simp add: archive_set_def set_real_def stat_col_Cons stat_col_absent)
  next
    case 5
    with num obtain x where "Avg st = Num x"
      by (cases "Avg st") (simp_all add: mapped_value_def mapped_metrics_def)
    with 5 absent show ?thesis
      by (simp add: archive_set_def set_real_def stat_col_Cons stat_col_absent)
  next
    case 6
    with num obtain x where "Avg st = Num x"
      by (cases "Avg st") (simp_all add: mapped_value_def mapped_metrics_def)
    with 6 absent show ?thesis
      by (simp add: archive_set_def set_real_def stat_col_Cons stat_col_absent)
  next
    case 7
    then have ne: "''flops_any'' \<noteq> k" "''mem_used'' \<noteq> k" "''mem_bw'' \<noteq> k" "''load'' \<noteq> k"
      "''net_bw'' \<noteq> k" "''file_bw'' \<noteq> k"
      by (auto simp: mapped_metrics_def)
    from 7 have "archive_set (k, st) r = Inr r"
      by (simp add: archive_set_unmapped)
    with ne show ?thesis
      by (simp add: stat_col_Cons)
  qed
qed

text \<open>
  The \<^verbatim>\<open>Set\<close> calls of the loop, in whatever order \<^verbatim>\<open>range\<close> visits the entries, amount
  to one assignment per mapped column, when no statistic that is read is not-a-number.
\<close>

lemma apply_sets_archive_set:
  "distinct (map fst metricStats) \<Longrightarrow>
   list_all (\<lambda>entry. mapped_value entry \<noteq> Some NaN) metricStats \<Longrightarrow>
   apply_sets archive_set metricStats r =
     Inr (r\<lparr>flops_any_avg := stat_col metricStats ''flops_any'' Avg (flops_any_avg r),
            mem_used_max := stat_col metricStats ''mem_used'' Max_val (mem_used_max r),
            mem_bw_avg := stat_col metricStats ''mem_bw'' Avg (mem_bw_avg r),
            load_avg := stat_col metricStats ''load'' Avg (load_avg r),
            net_bw_avg := stat_col metricStats ''net_bw'' Avg (net_bw_avg r),
            file_bw_avg := stat_col metricStats ''file_bw'' Avg (file_bw_avg r)\<rparr>)"
proof (induction metricStats arbitrary: r)
  case Nil
  show ?case by (simp add: stat_col_def)
next
  case (Cons entry rest)
  obtain k st where entry: "entry = (k, st)" by (cases entry)
  from Cons.prems entry have absent: "k \<notin> fst ` set rest" and dist: "distinct (map fst rest)"
    and num: "mapped_value (k, st) \<noteq> Some NaN"
    and nums: "list_all (\<lambda>entry. mapped_value entry \<noteq> Some NaN) rest"
    by simp_all
  from archive_set_step [OF absent num, of r] obtain r1 where
    "archive_set (k, st) r = Inr r1" and
    "r1\<lparr>flops_any_avg := stat_col rest ''flops_any'' Avg (flops_any_avg r1),
        mem_used_max := stat_col rest ''mem_used'' Max_val (mem_used_max r1),
        mem_bw_avg := stat_col rest ''mem_bw'' Avg (mem_bw_avg r1),
        load_avg := stat_col rest ''load'' Avg (load_avg r1),
        net_bw_avg := stat_col rest ''net_bw'' Avg (net_bw_avg r1),
        file_bw_avg := stat_col rest ''file_bw'' Avg (file_bw_avg r1)\<rparr> =
     r\<lparr>flops_any_avg := stat_col ((k, st) # rest) ''flops_any'' Avg (flops_any_avg r),
       mem_used_max := stat_col ((k, st) # rest) ''mem_used'' Max_val (mem_used_max r),
       mem_bw_avg := stat_col ((k, st) # rest) ''mem_bw'' Avg (mem_bw_avg r),
       load_avg := stat_col ((k, st) # rest) ''load'' Avg (load_avg r),
       net_bw_avg := stat_col ((k, st) # rest) ''net_bw'' Avg (net_bw_avg r),
       file_bw_avg := stat_col ((k, st) # rest) ''file_bw'' Avg (file_bw_avg r)\<rparr>"
    by blast
  with Cons.IH [OF dist nums, of r1] show ?case by (simp add: entry)
qed

text \<open>The update with assignments that are all accepted is the plain update.\<close>

lemma update_rows_accepted:
  assumes "\<And>r. upd r = Inr (g r)"
  shows "update_rows upd i rs =
           (if list_all (\<lambda>r. db_id r = i \<longrightarrow> job_checks (g r)) rs
            then Inr (map (\<lambda>r. if db_id r = i then g r else r) rs)
            else Inl (SqlConstraint ''CHECK constraint failed: job''))"
  by (induction rs) (simp_all add: assms)

lemma sql_update_job_values_accepted:
  assumes "\<And>r. upd r = Inr (g r)"
  shows "sql_update_job_values upd i d = sql_update_job g i d"
  by (simp add: sql_update_job_values_def sql_update_job_def update_rows_accepted [OF assms])

lemma update_rows_no_row:
  "\<forall>r\<in>set rs. db_id r \<noteq> i \<Longrightarrow> update_rows upd i rs = Inr rs"
  by (induction rs) simp_all

text \<open>
  Claim C6, as the code has it. For an id that identifies no row, \<^verbatim>\<open>Archive\<close> changes
  nothing and reports no error. For a job row that exists (ids being the primary key), a
  monitoring status that the CHECK constraint of the table admits, and statistics of which
  none that \<^verbatim>\<open>Archive\<close> reads is not-a-number, \<^verbatim>\<open>Archive\<close> succeeds; afterwards the row
  has the new monitoring status, each of \<^verbatim>\<open>flops_any_avg\<close>, \<^verbatim>\<open>mem_bw_avg\<close>,
  \<^verbatim>\<open>load_avg\<close>, \<^verbatim>\<open>net_bw_avg\<close>, \<^verbatim>\<open>file_bw_avg\<close> holds the \<^verbatim>\<open>Avg\<close> and
  \<^verbatim>\<open>mem_used_max\<close> the \<^verbatim>\<open>Max\<close> of its metric's entry exactly when \<^verbatim>\<open>metricStats\<close> has that
  entry, and is unchanged otherwise (\<open>archived_row\<close>); the other rows and tables are
  unchanged. In every case the entries of all other metric names make no difference: the
  call without them has the same result.
\<close>

theorem Archive_sets_mapped_columns:
  "(FindById d jobId = Inl ErrNoRows \<longrightarrow> Archive d jobId ms metricStats = Inr d) \<and>
   (distinct (map fst metricStats) \<and>
    list_all (\<lambda>entry. mapped_value entry \<noteq> Some NaN) metricStats \<and>
    distinct (map db_id (job_table d)) \<and>
    FindById d jobId = Inr r \<and>
    job_checks (r\<lparr>monitoring_status := ms\<rparr>) \<longrightarrow>
      (\<exists>d'. Archive d jobId ms metricStats = Inr d' \<and>
            FindById d' jobId = Inr (archived_row metricStats ms r) \<and>
            (\<forall>j. j \<noteq> jobId \<longrightarrow> FindById d' j = FindById d j) \<and>
            tag_table d' = tag_table d \<and> jobtag_table d' = jobtag_table d)) \<and>
   Archive d jobId ms (filter (\<lambda>entry. fst entry \<in> set mapped_metrics) metricStats) =
     Archive d jobId ms metricStats"
proof (intro conjI impI)
  assume "FindById d jobId = Inl ErrNoRows"
  then have "\<forall>r\<in>set (job_table d). db_id r \<noteq> jobId"
    by (auto simp: FindById_def find_None_iff split: option.splits)
  then show "Archive d jobId ms metricStats = Inr d"
    by (simp add: Archive_def sql_update_job_values_def update_rows_no_row)
next
  assume h: "distinct (map fst metricStats) \<and>
    list_all (\<lambda>entry. mapped_value entry \<noteq> Some NaN) metricStats \<and>
    distinct (map db_id (job_table d)) \<and>
    FindById d jobId = Inr r \<and>
    job_checks (r\<lparr>monitoring_status := ms\<rparr>)"
  then have keys: "distinct (map fst metricStats)"
    and nums: "list_all (\<lambda>entry. mapped_value entry \<noteq> Some NaN) metricStats"
    and pk: "distinct (map db_id (job_table d))"
    and row: "FindById d jobId = Inr r"
    and ok: "job_checks (r\<lparr>monitoring_status := ms\<rparr>)"
    by blast+
  let ?g = "archived_row metricStats ms"
  let ?d' = "d\<lparr>job_table := map (\<lambda>r. if db_id r = jobId then ?g r else r) (job_table d)\<rparr>"
  have upd: "apply_sets archive_set metricStats (x\<lparr>monitoring_status := ms\<rparr>) = Inr (?g x)" for x
    by (simp add: apply_sets_archive_set [OF keys nums] archived_row_def)
  have keep: "db_id (?g x) = db_id x" for x
    by (simp add: archived_row_def)
  have ok': "job_checks (?g r)"
    using ok by (simp add: archived_row_def job_checks_def)
  from row have found: "find (\<lambda>r. db_id r = jobId) (job_table d) = Some r"
    by (simp add: FindById_def split: option.splits)
  have "Archive d jobId ms metricStats = sql_update_job ?g jobId d"
    unfolding Archive_def by (rule sql_update_job_values_accepted) (rule upd)
  also have "\<dots> = Inr ?d'"
    using ok' keep by (intro sql_update_job_row [where upd = ?g, OF pk found])
  finally have arch: "Archive d jobId ms metricStats = Inr ?d'" .
  have "FindById ?d' j = (if j = jobId then Inr (?g r) else FindById d j)" for j
    using found keep by (simp add: FindById_def find_job_map [where upd = ?g])
  with arch show "\<exists>d'. Archive d jobId ms metricStats = Inr d' \<and>
            FindById d' jobId = Inr (archived_row metricStats ms r) \<and>
            (\<forall>j. j \<noteq> jobId \<longrightarrow> FindById d' j = FindById d j) \<and>
            tag_table d' = tag_table d \<and> jobtag_table d' = jobtag_table d"
    by simp
next
  show "Archive d jobId ms (filter (\<lambda>entry. fst entry \<in> set mapped_metrics) metricStats) =
        Archive d jobId ms metricStats"
    by (simp add: Archive_def apply_sets_filter)
qed

text \<open>
  The theorem at row 1 with statistics for \<^verbatim>\<open>flops_any\<close>, \<^verbatim>\<open>cpu_load\<close> (no column, and
  not-a-number) and \<^verbatim>\<open>mem_used\<close>, and at id 42, which identifies no row.
\<close>

theorem Archive_sets_mapped_columns_witness:
  "distinct (map fst ex_stats) \<and> distinct (map db_id (job_table ex_db1)) \<and>
   list_all (\<lambda>entry. mapped_value entry \<noteq> Some NaN) ex_stats \<and>
   FindById ex_db1 1 = Inr (ex_row 1 ex_job) \<and>
   job_checks ((ex_row 1 ex_job)\<lparr>monitoring_status := 3\<rparr>) \<and>
   (\<exists>d'. Archive ex_db1 1 3 ex_stats = Inr d' \<and>
         FindById d' 1 = Inr ((ex_row 1 ex_job)\<lparr>monitoring_status := 3, flops_any_avg := 2.5,
                                                mem_used_max := 64\<rparr>)) \<and>
   FindById ex_db1 42 = Inl ErrNoRows \<and>
   Archive ex_db1 42 3 ex_stats = Inr ex_db1"
proof -
  have a: "distinct (map fst ex_stats)"
    by (simp add: ex_stats_def)
  have b: "distinct (map db_id (job_table ex_db1))"
    by (simp add: ex_db1_def)
  have c: "FindById ex_db1 1 = Inr (ex_row 1 ex_job)"
    by (simp add: FindById_def ex_db1_def ex_row_def job_columns.defs job_row.defs)
  have d: "job_checks ((ex_row 1 ex_job)\<lparr>monitoring_status := 3\<rparr>)"
    by (simp add: job_checks_def job_states_def ex_row_def ex_job_def job_columns.defs job_row.defs)
  have e: "archived_row ex_stats 3 (ex_row 1 ex_job) =
           (ex_row 1 ex_job)\<lparr>monitoring_status := 3, flops_any_avg := 2.5, mem_used_max := 64\<rparr>"
    by (simp add: archived_row_def stat_col_def ex_stats_def ex_row_def job_columns.defs job_row.defs)
  have f: "list_all (\<lambda>entry. mapped_value entry \<noteq> Some NaN) ex_stats"
    by (simp add: ex_stats_def mapped_value_def mapped_metrics_def)
  have g: "FindById ex_db1 42 = Inl ErrNoRows"
    by (simp add: FindById_def ex_db1_def ex_row_def job_columns.defs job_row.defs)
  show ?thesis
    using a b c d e f g
      Archive_sets_mapped_columns [where d = ex_db1 and jobId = 1 and ms = 3
        and metricStats = ex_stats and r = "ex_row 1 ex_job"]
      Archive_sets_mapped_columns [where d = ex_db1 and jobId = 42 and ms = 3
        and metricStats = ex_stats]
    by auto
qed

text \<open>
  Claim C6 as stated fails: row 1 exists with monitoring status 1; the statistics of
  \<^verbatim>\<open>flops_any\<close> have a not-a-number average. \<^verbatim>\<open>Archive\<close> with monitoring status 3 fails on
  the \<^verbatim>\<open>NOT NULL\<close> constraint of \<^verbatim>\<open>flops_any_avg\<close>, and the monitoring status is not set.
\<close>

theorem Archive_nan_counterexample:
  "FindById ex_db1 1 = Inr (ex_row 1 ex_job) \<and>
   monitoring_status (ex_row 1 ex_job) = 1 \<and>
   Archive ex_db1 1 3 ex_stats_nan =
     Inl (SqlConstraint ''NOT NULL constraint failed: job.flops_any_avg'')"
  by (simp add: Archive_def sql_update_job_values_def archive_set_def set_real_def FindById_def
      ex_stats_nan_def ex_db1_def ex_row_def ex_job_def ex_empty_db_def
      job_columns.defs job_row.defs)

subsection \<open>\<^verbatim>\<open>AddTagOrCreate\<close>\<close>

lemma find_tag_append_new:
  "find P ts = None \<Longrightarrow> P t \<Longrightarrow> find P (ts @ [t]) = Some t"
  by (induction ts) (auto split: if_splits)

lemma filter_find_None: "find P ts = None \<Longrightarrow> filter P ts = []"
  by (induction ts) (auto split: if_splits)

lemma AddTag_tags: "AddTag d j t = Inr d' \<Longrightarrow> tag_table d' = tag_table d"
  by (auto simp: AddTag_def sql_insert_jobtag_def split: if_splits)

text \<open>
  Claim C8. Two calls of \<^verbatim>\<open>AddTagOrCreate\<close> in sequence with the same type and name, for
  any jobs, return the same tag id; after the first call \<^verbatim>\<open>TagId\<close> finds that tag; the
  second call leaves table \<^verbatim>\<open>tag\<close> as the first left it; the first call adds at most one
  row, and none when the tag existed; and when the tag did not exist before, the table
  afterwards has exactly one row for the pair. (The id is returned also when attaching the
  tag to the job is rejected, as it is when the same job is given the same tag twice.)
\<close>

theorem AddTagOrCreate_twice_same_id:
  assumes first: "AddTagOrCreate d jobId1 tagType tagName = (id1, err1, d1)"
    and second: "AddTagOrCreate d1 jobId2 tagType tagName = (id2, err2, d2)"
  shows "id2 = id1 \<and> TagId d1 tagType tagName = (id1, True) \<and>
         tag_table d2 = tag_table d1 \<and>
         length (tag_table d1) \<le> length (tag_table d) + 1 \<and>
         (TagId d tagType tagName = (id1, True) \<longrightarrow> tag_table d1 = tag_table d) \<and>
         (snd (TagId d tagType tagName) = False \<longrightarrow>
            filter (\<lambda>t. tag_type t = tagType \<and> tag_name t = tagName) (tag_table d2) =
              [\<lparr>tag_rowid = id1, tag_type = tagType, tag_name = tagName\<rparr>])"
proof -
  let ?P = "\<lambda>t. tag_type t = tagType \<and> tag_name t = tagName"
  have one: "TagId d1 tagType tagName = (id1, True) \<and>
             length (tag_table d1) \<le> length (tag_table d) + 1 \<and>
             (TagId d tagType tagName = (id1, True) \<longrightarrow> tag_table d1 = tag_table d) \<and>
             (snd (TagId d tagType tagName) = False \<longrightarrow>
                filter ?P (tag_table d1) = [\<lparr>tag_rowid = id1, tag_type = tagType, tag_name = tagName\<rparr>])"
  proof (cases "find ?P (tag_table d)")
    case None
    let ?i = "last_insert_rowid (map tag_rowid (tag_table d))"
    let ?t = "\<lparr>tag_rowid = ?i, tag_type = tagType, tag_name = tagName\<rparr>"
    let ?dc = "d\<lparr>tag_table := tag_table d @ [?t]\<rparr>"
    from None have nex: "\<not> list_ex ?P (tag_table d)"
      by (auto simp: find_None_iff list_ex_iff)
    then have create: "CreateTag d tagType tagName = Inr (?i, ?dc)"
      by (simp add: CreateTag_def sql_insert_tag_def Let_def)
    from first None create have id1: "id1 = ?i" and tags1: "tag_table d1 = tag_table ?dc"
      by (auto simp: AddTagOrCreate_def TagId_def Let_def dest: AddTag_tags split: sum.splits)
    have "find ?P (tag_table ?dc) = Some ?t"
      using None by (simp add: find_tag_append_new)
    moreover have "filter ?P (tag_table ?dc) = [?t]"
      using None by (simp add: filter_find_None)
    ultimately show ?thesis
      using None id1 tags1 by (simp add: TagId_def)
  next
    case (Some t)
    from first Some have "id1 = tag_rowid t" and "tag_table d1 = tag_table d"
      by (auto simp: AddTagOrCreate_def TagId_def Let_def dest: AddTag_tags split: sum.splits)
    with Some show ?thesis by (simp add: TagId_def)
  qed
  then have found: "TagId d1 tagType tagName = (id1, True)" by blast
  from second found have two: "id2 = id1 \<and> tag_table d2 = tag_table d1"
    by (auto simp: AddTagOrCreate_def Let_def dest: AddTag_tags split: sum.splits)
  with one show ?thesis by simp
qed

text \<open>
  The theorem at the tag of the REST test, given twice to row 1: the first call creates
  tag 1 and attaches it; the second returns tag 1 again, together with the primary-key
  error of table \<^verbatim>\<open>jobtag\<close>, and creates nothing.
\<close>

theorem AddTagOrCreate_twice_same_id_witness:
  "AddTagOrCreate ex_db1 1 ''testTagType'' ''testTagName'' = (1, None, ex_db1_tagged) \<and>
   AddTagOrCreate ex_db1_tagged 1 ''testTagType'' ''testTagName'' =
     (1, Some (SqlConstraint ''UNIQUE constraint failed: jobtag.job_id, jobtag.tag_id''),
      ex_db1_tagged) \<and>
   TagId ex_db1_tagged ''testTagType'' ''testTagName'' = (1, True) \<and>
   length (tag_table ex_db1_tagged) \<le> length (tag_table ex_db1) + 1"
proof -
  have a: "AddTagOrCreate ex_db1 1 ''testTagType'' ''testTagName'' = (1, None, ex_db1_tagged)"
    by (simp add: AddTagOrCreate_def TagId_def CreateTag_def AddTag_def sql_insert_tag_def
        sql_insert_jobtag_def last_insert_rowid_def ex_db1_tagged_def ex_db1_def ex_empty_db_def
        ex_row_def job_columns.defs job_row.defs)
  have b: "AddTagOrCreate ex_db1_tagged 1 ''testTagType'' ''testTagName'' =
           (1, Some (SqlConstraint ''UNIQUE constraint failed: jobtag.job_id, jobtag.tag_id''),
            ex_db1_tagged)"
    by (simp add: AddTagOrCreate_def TagId_def CreateTag_def AddTag_def sql_insert_tag_def
        sql_insert_jobtag_def last_insert_rowid_def ex_db1_tagged_def ex_db1_def ex_empty_db_def
        ex_row_def job_columns.defs job_row.defs)
  show ?thesis
    using a b AddTagOrCreate_twice_same_id [OF a b] by simp
qed

section \<open>Properties of the metric data service\<close>

subsection \<open>The branches of \<^verbatim>\<open>LoadData\<close>\<close>



lemma LoadData_compute_live:
  assumes "State job = JobStateRunning \<or>
           MonitoringStatus job = MonitoringStatusRunningOrArchiving \<or> \<not> useArchive e"
    and "metricDataRepos e (Cluster job) = Some repo"
    and "live_metrics e job metrics = Inr ms"
    and "repo job ms (live_scopes scopes) = (jd, err)"
  shows "LoadData_compute e job metrics scopes =
           (case err of
              None \<Rightarrow> (Inr (prepareJobData e job jd (live_scopes scopes)), ttl_of job, Size e jd,
                        [AdapterLoadData (Cluster job) ms (live_scopes scopes)])
            | Some er \<Rightarrow>
                if jd \<noteq> []
                then (Inr (prepareJobData e job jd (live_scopes scopes)), ttl_of job, Size e jd,
                      [AdapterLoadData (Cluster job) ms (live_scopes scopes), LogPartialError er])
                else (Inl er, 0, 0, [AdapterLoadData (Cluster job) ms (live_scopes scopes)]))"
  using assms by (simp add: LoadData_compute_def Let_def split: option.splits)

lemma LoadData_compute_archive:
  assumes "\<not> (State job = JobStateRunning \<or>
              MonitoringStatus job = MonitoringStatusRunningOrArchiving \<or> \<not> useArchive e)"
  shows "LoadData_compute e job metrics scopes =
           (case loadFromArchive e job of
              Inl err \<Rightarrow> (Inl err, 0, 0, [ArchiveLoad (ID job)])
            | Inr jd \<Rightarrow>
                (Inr (prepareJobData e job (trim_archive metrics scopes jd)
                        (case scopes of None \<Rightarrow> [] | Some ss \<Rightarrow> ss)),
                 ttl_of job, 1, [ArchiveLoad (ID job)]))"
  using assms by (simp add: LoadData_compute_def)


subsection \<open>The cache in front of the closure\<close>


lemma cache_Get_miss:
  assumes "cache_lookup c now k = None"
  shows "fst (cache_Get c now k f) = fst (f ())"
    and "snd (snd (cache_Get c now k f)) = snd (snd (snd (f ())))"
  using assms
  by (auto simp: cache_lookup_def cache_Get_def Let_def split: option.splits if_splits prod.splits)


lemma LoadData_miss:
  assumes "cache_lookup c now (cacheKey job metrics scopes) = None"
  shows "LoadData_result c now e job metrics scopes = computed_value e job metrics scopes"
    and "LoadData_events c now e job metrics scopes = computed_events e job metrics scopes"
  using assms
  by (simp_all add: LoadData_result_def LoadData_events_def LoadData_def cache_Get_miss
      computed_value_def computed_events_def)

lemma cache_lookup_empty: "cache_lookup [] now k = None"
  by (simp add: cache_lookup_def)










subsection \<open>Partial failure of the adapter\<close>

text \<open>
  Claim C3. On the live path (one of the three conditions holds, an adapter is registered,
  the metric list is given or the cluster is configured), when the adapter returns an
  error together with non-empty data, the closure of \<^verbatim>\<open>LoadData\<close> gives that data,
  post-processed by \<^verbatim>\<open>prepareJobData\<close>, and no error, and the only trace of the error is
  one line in the log; when the adapter returns an error and empty data, it gives that
  error and no data, and logs nothing. \<^verbatim>\<open>LoadData\<close> returns to its caller what the
  closure gives, with the same events, whenever it runs the closure, which is whenever
  the adapter is called.
\<close>

theorem LoadData_partial_error:
  assumes live: "State job = JobStateRunning \<or>
                 MonitoringStatus job = MonitoringStatusRunningOrArchiving \<or> \<not> useArchive e"
    and repo: "metricDataRepos e (Cluster job) = Some repo"
    and ms: "live_metrics e job metrics = Inr ms"
    and call: "repo job ms (live_scopes scopes) = (jd, Some err)"
  shows "(jd \<noteq> [] \<longrightarrow>
            computed_value e job metrics scopes = Inr (prepareJobData e job jd (live_scopes scopes)) \<and>
            computed_events e job metrics scopes =
              [AdapterLoadData (Cluster job) ms (live_scopes scopes), LogPartialError err]) \<and>
         (jd = [] \<longrightarrow>
            computed_value e job metrics scopes = Inl err \<and>
            computed_events e job metrics scopes =
              [AdapterLoadData (Cluster job) ms (live_scopes scopes)]) \<and>
         (cache_lookup c now (cacheKey job metrics scopes) = None \<longrightarrow>
            LoadData_result c now e job metrics scopes = computed_value e job metrics scopes \<and>
            LoadData_events c now e job metrics scopes = computed_events e job metrics scopes)"
  by (simp add: computed_value_def computed_events_def LoadData_miss
      LoadData_compute_live [OF live repo ms call])


text \<open>
  The theorem at the example adapter, on an empty cache: \<^verbatim>\<open>mem_bw\<close> among the metrics
  gives data and an error; an empty metric list gives an error alone.
\<close>

theorem LoadData_partial_error_witness:
  "LoadData_result [] 0 ex_env ex_running (Some [''load_one'', ''mem_bw'']) None = Inr ex_data \<and>
   LoadData_events [] 0 ex_env ex_running (Some [''load_one'', ''mem_bw'']) None =
     [AdapterLoadData ''testcluster'' [''load_one'', ''mem_bw''] [''node''],
      LogPartialError (Failure ''mem_bw: timeout'')] \<and>
   LoadData_result [] 0 ex_env ex_running (Some []) None = Inl (Failure ''no metrics requested'') \<and>
   LoadData_events [] 0 ex_env ex_running (Some []) None =
     [AdapterLoadData ''testcluster'' [] [''node'']]"
proof -
  have live: "State ex_running = JobStateRunning \<or>
              MonitoringStatus ex_running = MonitoringStatusRunningOrArchiving \<or> \<not> useArchive ex_env"
    by (simp add: ex_running_def JobStateRunning_def)
  have repo: "metricDataRepos ex_env (Cluster ex_running) = Some ex_adapter"
    by (simp add: ex_env_def ex_running_def)
  have ms1: "live_metrics ex_env ex_running (Some [''load_one'', ''mem_bw'']) = Inr [''load_one'', ''mem_bw'']"
    by (simp add: live_metrics_def)
  have ms2: "live_metrics ex_env ex_running (Some []) = Inr []"
    by (simp add: live_metrics_def)
  have call1: "ex_adapter ex_running [''load_one'', ''mem_bw''] (live_scopes None) =
               (ex_data, Some (Failure ''mem_bw: timeout''))"
    by (simp add: ex_adapter_def)
  have call2: "ex_adapter ex_running [] (live_scopes None) = ([], Some (Failure ''no metrics requested''))"
    by (simp add: ex_adapter_def)
  have prep: "prepareJobData ex_env ex_running ex_data (live_scopes None) = ex_data"
    by (simp add: prepareJobData_def addStatistics_def ex_data_def ex_metric_def ex_env_def
        maxSeriesSize_def live_scopes_def)
  have nonempty: "ex_data \<noteq> []"
    by (simp add: ex_data_def)
  show ?thesis
    using prep nonempty
      LoadData_partial_error [OF live repo ms1 call1, where c = "[]" and now = 0]
      LoadData_partial_error [OF live repo ms2 call2, where c = "[]" and now = 0]
    by (simp add: live_scopes_def MetricScopeNode_def ex_running_def cache_lookup_empty)
qed

subsection \<open>Trimming of archived data\<close>

lemma map_of_fold_metrics:
  "map_of (fold (\<lambda>metric res. case map_of jd metric of
                                 Some perscope \<Rightarrow> AList.update metric (g perscope) res
                               | None \<Rightarrow> res) ms res) m =
     (if m \<in> set ms \<and> map_of jd m \<noteq> None then map_option g (map_of jd m) else map_of res m)"
proof (induction ms arbitrary: res)
  case Nil
  show ?case by simp
next
  case (Cons a ms)
  show ?case
    by (cases "map_of jd a") (auto simp: Cons.IH update_conv')
qed

lemma map_of_fold_scopes:
  "map_of (fold (\<lambda>scope sub. case map_of ps scope of
                                Some jm \<Rightarrow> AList.update scope jm sub
                              | None \<Rightarrow> sub) ss sub) s =
     (if s \<in> set ss \<and> map_of ps s \<noteq> None then map_of ps s else map_of sub s)"
proof (induction ss arbitrary: sub)
  case Nil
  show ?case by simp
next
  case (Cons a ss)
  show ?case
    by (cases "map_of ps a") (auto simp: Cons.IH update_conv')
qed

lemma fold_scopes_empty:
  "fold (\<lambda>scope sub. case map_of ps scope of
                       Some jm \<Rightarrow> AList.update scope jm sub
                     | None \<Rightarrow> sub) ss sub = [] \<longleftrightarrow>
     sub = [] \<and> (\<forall>s\<in>set ss. map_of ps s = None)"
proof (induction ss arbitrary: sub)
  case Nil
  show ?case by simp
next
  case (Cons a ss)
  show ?case
    by (cases "map_of ps a") (auto simp: Cons.IH)
qed

lemma map_of_trim_scopes:
  "map_of (trim_scopes ss ps) s = (if scope_kept ss ps s then map_of ps s else None)"
proof -
  let ?subset = "fold (\<lambda>scope sub. case map_of ps scope of
                                     Some jm \<Rightarrow> AList.update scope jm sub
                                   | None \<Rightarrow> sub) ss []"
  have empty: "?subset = [] \<longleftrightarrow> \<not> list_ex (\<lambda>s. map_of ps s \<noteq> None) ss"
    by (simp add: fold_scopes_empty list_ex_iff)
  have look: "map_of ?subset s = (if s \<in> set ss then map_of ps s else None)"
    by (simp add: map_of_fold_scopes)
  show ?thesis
    using empty look by (auto simp: trim_scopes_def scope_kept_def Let_def)
qed


text \<open>
  Claim C4, as the code has it. For a metric list \<open>ms\<close> and a scope list \<open>ss\<close>, both
  given, the trimmed data has, at metric \<open>m\<close> and scope \<open>s\<close>, the archived record when
  \<open>m\<close> is requested and archived and the scope is kept (\<open>scope_kept\<close>: a requested scope,
  when the metric is archived with more than one scope of which at least one is requested;
  any archived scope otherwise), and nothing else. So the metrics returned are the
  requested ones that the archive has; every record returned is the archived record under
  the same metric and scope, and none is made up; a metric is a key of the trimmed data
  exactly when it is requested and archived, and its scopes are then the trimmed scopes of
  the archived metric; and on the archive path the closure of \<^verbatim>\<open>LoadData\<close> gives the
  trimmed data, post-processed by \<^verbatim>\<open>prepareJobData\<close>, which \<^verbatim>\<open>LoadData\<close> returns
  whenever it runs the closure.
\<close>

theorem trim_archive_requested:
  "lookup2 (trim_archive (Some ms) (Some ss) jd) m s =
     (case map_of jd m of
        None \<Rightarrow> None
      | Some perscope \<Rightarrow> if m \<in> set ms \<and> scope_kept ss perscope s then map_of perscope s else None) \<and>
   (lookup2 (trim_archive (Some ms) (Some ss) jd) m s = Some jm \<longrightarrow> lookup2 jd m s = Some jm) \<and>
   map_of (trim_archive (Some ms) (Some ss) jd) m =
     (if m \<in> set ms then map_option (trim_scopes ss) (map_of jd m) else None) \<and>
   (\<not> (State job = JobStateRunning \<or>
       MonitoringStatus job = MonitoringStatusRunningOrArchiving \<or> \<not> useArchive e) \<and>
    loadFromArchive e job = Inr jd \<longrightarrow>
      computed_value e job (Some ms) (Some ss) =
        Inr (prepareJobData e job (trim_archive (Some ms) (Some ss) jd) ss) \<and>
      (cache_lookup c now (cacheKey job (Some ms) (Some ss)) = None \<longrightarrow>
         LoadData_result c now e job (Some ms) (Some ss) =
           Inr (prepareJobData e job (trim_archive (Some ms) (Some ss) jd) ss)))"
proof -
  have look: "lookup2 (trim_archive (Some ms) (Some ss) jd) m s =
     (case map_of jd m of
        None \<Rightarrow> None
      | Some perscope \<Rightarrow> if m \<in> set ms \<and> scope_kept ss perscope s then map_of perscope s else None)"
    by (auto simp: lookup2_def trim_archive_def map_of_fold_metrics map_of_trim_scopes
        split: option.splits)
  then have "lookup2 jd m s = Some jm" if "lookup2 (trim_archive (Some ms) (Some ss) jd) m s = Some jm"
    using that by (auto simp: lookup2_def split: option.splits if_splits)
  moreover have "map_of (trim_archive (Some ms) (Some ss) jd) m =
     (if m \<in> set ms then map_option (trim_scopes ss) (map_of jd m) else None)"
    by (cases "map_of jd m") (simp_all add: trim_archive_def map_of_fold_metrics)
  moreover have "computed_value e job (Some ms) (Some ss) =
        Inr (prepareJobData e job (trim_archive (Some ms) (Some ss) jd) ss)"
    if "\<not> (State job = JobStateRunning \<or>
          MonitoringStatus job = MonitoringStatusRunningOrArchiving \<or> \<not> useArchive e)"
      and "loadFromArchive e job = Inr jd"
    using that by (simp add: computed_value_def LoadData_compute_archive)
  ultimately show ?thesis using look by (simp add: LoadData_miss)
qed


text \<open>
  The theorem at the archive with two metrics, of which one is requested at node scope,
  and at the archive of the example environment.
\<close>

theorem trim_archive_requested_witness:
  "lookup2 (trim_archive (Some [''load_one'']) (Some [''node'']) ex_wide_data) ''load_one'' ''node'' =
     Some ex_wide \<and>
   lookup2 ex_wide_data ''load_one'' ''node'' = Some ex_wide \<and>
   lookup2 (trim_archive (Some [''load_one'']) (Some [''node'']) ex_wide_data) ''mem_bw'' ''node'' = None \<and>
   map_of (trim_archive (Some [''load_one'']) (Some [''node'']) ex_wide_data) ''mem_bw'' = None \<and>
   LoadData_result [] 0 ex_env ex_completed (Some [''load_one'']) (Some [''node'']) =
     Inr (prepareJobData ex_env ex_completed
            (trim_archive (Some [''load_one'']) (Some [''node'']) ex_data) [''node''])"
proof -
  have a: "lookup2 (trim_archive (Some [''load_one'']) (Some [''node'']) ex_wide_data) ''load_one'' ''node'' =
     Some ex_wide"
    by (simp add: lookup2_def trim_archive_def trim_scopes_def ex_wide_data_def)
  have b: "\<not> (State ex_completed = JobStateRunning \<or>
      MonitoringStatus ex_completed = MonitoringStatusRunningOrArchiving \<or> \<not> useArchive ex_env)"
    by (simp add: ex_env_def ex_completed_def JobStateRunning_def MonitoringStatusRunningOrArchiving_def)
  have c: "loadFromArchive ex_env ex_completed = Inr ex_data"
    by (simp add: ex_env_def)
  have d: "map_of ex_wide_data ''mem_bw'' = Some [(''node'', ex_metric)]"
    by (simp add: ex_wide_data_def)
  show ?thesis
    using a b c d
      trim_archive_requested [where ms = "[''load_one'']" and ss = "[''node'']" and jd = ex_wide_data
        and m = "''load_one''" and s = "''node''" and jm = ex_wide]
      trim_archive_requested [where ms = "[''load_one'']" and ss = "[''node'']" and jd = ex_wide_data
        and m = "''mem_bw''" and s = "''node''"]
      trim_archive_requested [where ms = "[''load_one'']" and ss = "[''node'']" and jd = ex_data
        and e = ex_env and job = ex_completed and c = "[]" and now = 0]
    by (simp add: cache_lookup_empty)
qed


text \<open>
  Claim C4 as stated fails: the archive holds \<^verbatim>\<open>load_one\<close> at node scope only; the
  metrics \<^verbatim>\<open>load_one\<close> and \<^verbatim>\<open>flops_any\<close> are requested at scope \<^verbatim>\<open>core\<close>. The data
  returned lacks the requested metric \<^verbatim>\<open>flops_any\<close> and holds \<^verbatim>\<open>load_one\<close> at node
  scope, which was not requested.
\<close>

theorem trim_archive_requested_counterexample:
  "\<not> (State ex_completed = JobStateRunning \<or>
      MonitoringStatus ex_completed = MonitoringStatusRunningOrArchiving \<or> \<not> useArchive ex_env) \<and>
   loadFromArchive ex_env ex_completed = Inr ex_data \<and>
   LoadData_result [] 0 ex_env ex_completed (Some [''load_one'', ''flops_any'']) (Some [''core'']) =
     Inr ex_data \<and>
   map_of ex_data ''flops_any'' = None \<and>
   lookup2 ex_data ''load_one'' ''node'' = Some ex_metric"
  by (simp add: LoadData_result_def LoadData_def cache_Get_def
      LoadData_compute_def trim_archive_def trim_scopes_def
      prepareJobData_def addStatistics_def maxSeriesSize_def lookup2_def
      ex_env_def ex_completed_def ex_data_def ex_metric_def
      JobStateRunning_def MonitoringStatusRunningOrArchiving_def MetricScopeNode_def)


subsection \<open>\<^verbatim>\<open>prepareJobData\<close>\<close>

lemma fold_nodeScopeRequested:
  "fold (\<lambda>scope b. if scope = n then True else b) scopes b0 \<longleftrightarrow> b0 \<or> n \<in> set scopes"
  by (induction scopes arbitrary: b0) auto

lemma lookup2_addStatistics:
  "lookup2 (addStatistics e jobData) m s =
     map_option (\<lambda>jm. if StatisticsSeries jm \<noteq> None \<or> length (Series jm) \<le> maxSeriesSize
                      then jm else AddStatisticsSeries e jm)
       (lookup2 jobData m s)"
  by (simp add: lookup2_def addStatistics_def map_of_map split: option.splits)


text \<open>
  Claim C7. Let \<^verbatim>\<open>AddNodeScope\<close> keep the records that are there (it only adds a node-scope
  record where there is none). Then every record of the data that has more than 15 series
  and no statistics series is, after \<^verbatim>\<open>prepareJobData\<close>, the result of
  \<^verbatim>\<open>AddStatisticsSeries\<close> on it, and every record with at most 15 series or with a
  statistics series is unchanged.
\<close>

theorem prepareJobData_statistics:
  assumes keep: "\<And>k d m s jm. lookup2 d m s = Some jm \<Longrightarrow> lookup2 (AddNodeScope e k d) m s = Some jm"
    and rec: "lookup2 jobData m s = Some jm"
  shows "lookup2 (prepareJobData e job jobData scopes) m s =
           Some (if StatisticsSeries jm = None \<and> 15 < length (Series jm)
                 then AddStatisticsSeries e jm else jm)"
proof -
  let ?jm' = "if StatisticsSeries jm = None \<and> 15 < length (Series jm)
              then AddStatisticsSeries e jm else jm"
  have stats: "lookup2 (addStatistics e jobData) m s = Some ?jm'"
    using rec by (auto simp: lookup2_addStatistics maxSeriesSize_def)
  show ?thesis
  proof (cases "MetricScopeNode \<in> set scopes")
    case True
    have "lookup2 (AddNodeScope e ''mem_bw'' (AddNodeScope e ''flops_any'' (addStatistics e jobData))) m s
            = Some ?jm'"
      by (intro keep stats)
    with True show ?thesis
      by (simp add: prepareJobData_def fold_nodeScopeRequested)
  next
    case False
    with stats show ?thesis
      by (simp add: prepareJobData_def fold_nodeScopeRequested)
  qed
qed


text \<open>
  The theorem at data with a record of sixteen series and a record of one series, node
  scope requested.
\<close>

theorem prepareJobData_statistics_witness:
  "lookup2 ex_wide_data ''load_one'' ''node'' = Some ex_wide \<and>
   lookup2 ex_wide_data ''mem_bw'' ''node'' = Some ex_metric \<and>
   length (Series ex_wide) = 16 \<and> length (Series ex_metric) = 1 \<and>
   lookup2 (prepareJobData ex_env ex_running ex_wide_data [''node'']) ''load_one'' ''node'' =
     Some (ex_wide\<lparr>StatisticsSeries := Some 16\<rparr>) \<and>
   lookup2 (prepareJobData ex_env ex_running ex_wide_data [''node'']) ''mem_bw'' ''node'' =
     Some ex_metric"
proof -
  have keep: "lookup2 d m s = Some jm \<Longrightarrow> lookup2 (AddNodeScope ex_env k d) m s = Some jm"
    for k d m s and jm :: "(nat, nat) JobMetric"
    by (simp add: ex_env_def)
  have a: "lookup2 ex_wide_data ''load_one'' ''node'' = Some ex_wide"
    by (simp add: lookup2_def ex_wide_data_def)
  have b: "lookup2 ex_wide_data ''mem_bw'' ''node'' = Some ex_metric"
    by (simp add: lookup2_def ex_wide_data_def)
  have c: "StatisticsSeries ex_wide = None" "length (Series ex_wide) = 16"
    "length (Series ex_metric) = 1"
    "AddStatisticsSeries ex_env ex_wide = ex_wide\<lparr>StatisticsSeries := Some 16\<rparr>"
    by (simp_all add: ex_wide_def ex_metric_def ex_env_def)
  show ?thesis
    using a b c
      prepareJobData_statistics [of ex_env, OF keep a, of ex_running "[''node'']"]
      prepareJobData_statistics [of ex_env, OF keep b, of ex_running "[''node'']"]
    by simp
qed

subsection \<open>The list representation of maps\<close>

text \<open>
  Trimming and the statistics loop turn lists with distinct keys into lists with distinct
  keys, so their results stand for Go maps again.
\<close>

lemma set_update_subset: "set (AList.update k v al) \<subseteq> insert (k, v) (set al)"
  by (induction al) auto

lemma distinct_fold_scopes:
  "distinct (map fst sub) \<Longrightarrow>
   distinct (map fst (fold (\<lambda>scope sub. case map_of ps scope of
                                           Some jm \<Rightarrow> AList.update scope jm sub
                                         | None \<Rightarrow> sub) ss sub))"
  by (induction ss arbitrary: sub) (auto simp: distinct_update split: option.splits)

lemma distinct_trim_scopes:
  "distinct (map fst ps) \<Longrightarrow> distinct (map fst (trim_scopes ss ps))"
  by (simp add: trim_scopes_def Let_def distinct_fold_scopes)

lemma wf_fold_metrics:
  assumes "wf_JobData jd" and "wf_JobData res"
  shows "wf_JobData (fold (\<lambda>metric res. case map_of jd metric of
                                           Some perscope \<Rightarrow> AList.update metric (trim_scopes ss perscope) res
                                         | None \<Rightarrow> res) ms res)"
  using assms(2)
proof (induction ms arbitrary: res)
  case Nil
  then show ?case by simp
next
  case (Cons m ms)
  show ?case
  proof (cases "map_of jd m")
    case None
    with Cons show ?thesis by simp
  next
    case (Some ps)
    then have "(m, ps) \<in> set jd" by (rule map_of_SomeD)
    with assms(1) have "distinct (map fst ps)"
      by (auto simp: wf_JobData_def list_all_iff)
    then have "distinct (map fst (trim_scopes ss ps))"
      by (rule distinct_trim_scopes)
    with Cons.prems have "wf_JobData (AList.update m (trim_scopes ss ps) res)"
      using set_update_subset [of m "trim_scopes ss ps" res]
      by (auto simp: wf_JobData_def list_all_iff distinct_update)
    with Cons.IH Some show ?thesis by simp
  qed
qed

lemma wf_JobData_Nil: "wf_JobData []"
  by (simp add: wf_JobData_def)

lemma wf_trim_archive: "wf_JobData jd \<Longrightarrow> wf_JobData (trim_archive metrics scopes jd)"
  by (simp add: trim_archive_def Let_def wf_fold_metrics wf_JobData_Nil)

lemma wf_addStatistics: "wf_JobData jd \<Longrightarrow> wf_JobData (addStatistics e jd)"
  by (auto simp: wf_JobData_def addStatistics_def list_all_iff comp_def case_prod_unfold)

section \<open>Properties of the bulk import\<close>

subsection \<open>Events and tables along the walk\<close>

lemma loaded_dirs_append: "loaded_dirs (xs @ ys) = loaded_dirs xs @ loaded_dirs ys"
  by (induction xs rule: loaded_dirs.induct) simp_all

lemma failed_dirs_append: "failed_dirs (xs @ ys) = failed_dirs xs @ failed_dirs ys"
  by (induction xs rule: failed_dirs.induct) simp_all

lemma logged_dirs_append: "logged_dirs (xs @ ys) = logged_dirs xs @ logged_dirs ys"
  by (induction xs rule: logged_dirs.induct) simp_all

lemma succeeded_dirs_append: "succeeded_dirs (xs @ ys) = succeeded_dirs xs @ succeeded_dirs ys"
  by (induction xs rule: succeeded_dirs.induct) simp_all

lemma walk_events_append: "walk_events xs \<Longrightarrow> walk_events ys \<Longrightarrow> walk_events (xs @ ys)"
  by (simp add: walk_events_def failed_dirs_append logged_dirs_append)

lemma stored_job_mono:
  "stored_job e d p \<Longrightarrow> set (job_table d) \<subseteq> set (job_table d') \<Longrightarrow> stored_job e d' p"
  by (auto simp: stored_job_def list_ex_iff)

lemma imported_from_loadable: "imported_from e p r \<Longrightarrow> loadable e p"
  by (auto simp: imported_from_def loadable_def Let_def split: sum.splits)

lemma stored_job_loadable: "stored_job e d p \<Longrightarrow> loadable e p"
  by (auto simp: stored_job_def list_ex_iff intro: imported_from_loadable)

lemma visits_refl: "visits e st st []"
  by (simp add: visits_def walk_events_def)

lemma visits_rows:
  "visits e st st' ps \<Longrightarrow> r \<in> set (job_table (st_tx st')) \<Longrightarrow>
   r \<in> set (job_table (st_tx st)) \<or> list_ex (\<lambda>p. imported_from e p r) ps"
  by (simp add: visits_def)

lemma visits_trans:
  assumes "visits e a b ps" and "visits e b c qs"
  shows "visits e a c (ps @ qs)"
proof -
  from assms(1) obtain evs1 where 1: "st_trace b = st_trace a @ evs1" "walk_events evs1"
    "loaded_dirs evs1 = ps" "list_all (stored_job e (st_tx b)) (succeeded_dirs evs1)"
    and all1: "list_all (stored_job e (st_tx b)) (filter (loadable e) ps)"
    and idx1: "job_indexes (st_tx b) = job_indexes (st_tx a)"
    and sub1: "set (job_table (st_tx a)) \<subseteq> set (job_table (st_tx b))"
    unfolding visits_def by blast
  have new: "r \<in> set (job_table (st_tx a)) \<or> list_ex (\<lambda>p. imported_from e p r) (ps @ qs)"
    if "r \<in> set (job_table (st_tx c))" for r
    using visits_rows [OF assms(2) that] visits_rows [OF assms(1), of r] by auto
  from assms(2) obtain evs2 where 2: "st_trace c = st_trace b @ evs2" "walk_events evs2"
    "loaded_dirs evs2 = qs" "list_all (stored_job e (st_tx c)) (succeeded_dirs evs2)"
    and all2: "list_all (stored_job e (st_tx c)) (filter (loadable e) qs)"
    and idx2: "job_indexes (st_tx c) = job_indexes (st_tx b)"
    and sub2: "set (job_table (st_tx b)) \<subseteq> set (job_table (st_tx c))"
    unfolding visits_def by blast
  have "list_all (stored_job e (st_tx c)) (succeeded_dirs evs1)"
    using 1(4) sub2 by (auto simp: list_all_iff intro: stored_job_mono)
  then have "list_all (stored_job e (st_tx c)) (succeeded_dirs (evs1 @ evs2))"
    using 2(4) by (simp add: succeeded_dirs_append)
  moreover have "st_trace c = st_trace a @ (evs1 @ evs2)"
    using 1 2 by simp
  moreover have "walk_events (evs1 @ evs2)"
    using 1 2 by (simp add: walk_events_append)
  moreover have "loaded_dirs (evs1 @ evs2) = ps @ qs"
    using 1 2 by (simp add: loaded_dirs_append)
  ultimately have "\<exists>evs. st_trace c = st_trace a @ evs \<and> walk_events evs \<and>
      loaded_dirs evs = ps @ qs \<and> list_all (stored_job e (st_tx c)) (succeeded_dirs evs)"
    by blast
  moreover have "list_all (stored_job e (st_tx c)) (filter (loadable e) ps)"
    using all1 sub2 by (auto simp: list_all_iff intro: stored_job_mono)
  then have "list_all (stored_job e (st_tx c)) (filter (loadable e) (ps @ qs))"
    using all2 by simp
  ultimately show ?thesis
    using idx1 idx2 sub1 sub2 new unfolding visits_def by auto
qed

lemma sql_insert_jobtag_tables:
  "sql_insert_jobtag j t tx = Inr tx' \<Longrightarrow>
     job_indexes tx' = job_indexes tx \<and> job_table tx' = job_table tx"
  by (auto simp: sql_insert_jobtag_def split: if_splits)

lemma sql_insert_tag_tables:
  "sql_insert_tag ty nm tx = Inr (i, tx') \<Longrightarrow>
     job_indexes tx' = job_indexes tx \<and> job_table tx' = job_table tx"
  by (auto simp: sql_insert_tag_def Let_def split: if_splits)

lemma loadTags_tables:
  "loadTags tx tags jobRow ts = (err, tx', tags') \<Longrightarrow>
     job_indexes tx' = job_indexes tx \<and> job_table tx' = job_table tx"
proof (induction ts arbitrary: tx tags)
  case Nil
  then show ?case by simp
next
  case (Cons t ts)
  then show ?case
    by (auto simp: Let_def split: option.splits sum.splits prod.splits
        dest!: sql_insert_tag_tables sql_insert_jobtag_tables)
qed

lemma loadJob_tables:
  assumes "loadJob e tx tags p = (err, tx', tags')"
  shows "job_indexes tx' = job_indexes tx \<and> set (job_table tx) \<subseteq> set (job_table tx') \<and>
         (err = None \<longrightarrow> stored_job e tx' p) \<and>
         (loadable e p \<longrightarrow> stored_job e tx' p) \<and>
         (\<forall>r\<in>set (job_table tx'). r \<in> set (job_table tx) \<or> imported_from e p r)"
proof (cases "decodeMeta e p")
  case (Inl x)
  with assms show ?thesis by (auto simp: loadJob_def loadable_def)
next
  case (Inr decoded)
  let ?job = "decoded\<lparr>job_values :=
                (job_values decoded)\<lparr>monitoring_status := MonitoringStatusArchivingSuccessful\<rparr>\<rparr>"
  show ?thesis
  proof (cases "SanityChecks e ?job")
    case (Some x)
    with assms Inr show ?thesis by (auto simp: loadJob_def loadable_def Let_def)
  next
    case None
    show ?thesis
    proof (cases "sql_insert_job (Some (subcluster (job_values ?job))) (job_values ?job) tx")
      case (Inl x)
      then have "\<not> job_checks (job_values ?job)"
        by (auto simp: sql_insert_job_def Let_def split: if_splits)
      with assms Inr None Inl show ?thesis by (auto simp: loadJob_def loadable_def Let_def)
    next
      case ins: (Inr res)
      obtain i tx1 where res: "res = (i, tx1)" by (cases res)
      from ins res have tx1: "tx1 = tx\<lparr>job_table := job_table tx @ [(job_values ?job)\<lparr>db_id := i\<rparr>]\<rparr>"
        and ok: "job_checks (job_values ?job)"
        by (auto simp: sql_insert_job_def Let_def split: if_splits)
      from Inr None ok have imp: "imported_from e p ((job_values ?job)\<lparr>db_id := i\<rparr>)"
        by (simp add: imported_from_def Let_def)
      from assms Inr None ins res have "loadTags tx1 tags i (Tags ?job) = (err, tx', tags')"
        by (simp add: loadJob_def Let_def)
      then have "job_indexes tx' = job_indexes tx1" "job_table tx' = job_table tx1"
        using loadTags_tables by blast+
      with tx1 imp show ?thesis
        by (auto simp: stored_job_def list_ex_iff)
    qed
  qed
qed

lemma handle_and_log_visits: "visits e st (handle_and_log e p st) [p]"
proof -
  let ?st1 = "if st_i st mod 100 = 0 then commit_begin st else st"
  obtain err tx' tags' where load: "loadJob e (st_tx ?st1) (st_tags ?st1) p = (err, tx', tags')"
    by (cases "loadJob e (st_tx ?st1) (st_tags ?st1) p") auto
  let ?cb = "if st_i st mod 100 = 0 then [Commit, Begin] else []"
  let ?evs = "?cb @ [LoadJob p err] @ (case err of None \<Rightarrow> [] | Some x \<Rightarrow> [LogError p x])"
  have tx1: "st_tx ?st1 = st_tx st" and tr1: "st_trace ?st1 = st_trace st @ ?cb"
    by (simp_all add: commit_begin_def)
  from loadJob_tables [OF load] tx1
  have idx: "job_indexes tx' = job_indexes (st_tx st)"
    and sub: "set (job_table (st_tx st)) \<subseteq> set (job_table tx')"
    and ok: "err = None \<longrightarrow> stored_job e tx' p"
    and ld: "loadable e p \<longrightarrow> stored_job e tx' p"
    and new: "\<forall>r\<in>set (job_table tx'). r \<in> set (job_table (st_tx st)) \<or> imported_from e p r"
    by simp_all
  have tr: "st_trace (handle_and_log e p st) = st_trace st @ ?evs"
    and tx: "st_tx (handle_and_log e p st) = tx'"
    using load tr1 by (auto simp: handle_and_log_def handleDirectory_def Let_def split: option.splits)
  have "walk_events ?evs" "loaded_dirs ?evs = [p]"
    by (auto simp: walk_events_def split: option.splits)
  moreover have "list_all (stored_job e tx') (succeeded_dirs ?evs)"
    using ok by (auto simp: succeeded_dirs_append split: option.splits)
  ultimately have "\<exists>evs. st_trace (handle_and_log e p st) = st_trace st @ evs \<and> walk_events evs \<and>
      loaded_dirs evs = [p] \<and>
      list_all (stored_job e (st_tx (handle_and_log e p st))) (succeeded_dirs evs)"
    using tr tx by metis
  with tx idx sub new ld show ?thesis
    unfolding visits_def by simp
qed

lemma walk_startTimeDirs_visits:
  "visits e st (walk_startTimeDirs e dirpath entries st) (job_dirs_of_entries dirpath entries)"
proof (induction entries arbitrary: st)
  case Nil
  show ?case by (simp add: visits_refl job_dirs_of_entries_def)
next
  case (Cons s entries)
  let ?st1 = "if IsRegular s \<and> entry_name s = ''meta.json'' then handle_and_log e dirpath st
              else if IsDir s then handle_and_log e (dirpath @ [entry_name s]) st else st"
  let ?ps = "if IsRegular s \<and> entry_name s = ''meta.json'' then [dirpath]
             else if IsDir s then [dirpath @ [entry_name s]] else []"
  have "visits e st ?st1 ?ps"
    by (simp add: handle_and_log_visits visits_refl)
  from visits_trans [OF this Cons.IH [of ?st1]] show ?case
    by (simp add: job_dirs_of_entries_def)
qed

lemma walk_lvl2Dirs_visits:
  "\<exists>ps. visits e st (snd (walk_lvl2Dirs e p ds st)) ps \<and>
        (list_all IsDir ds \<longrightarrow>
           fst (walk_lvl2Dirs e p ds st) = None \<and> ps = concat (map (job_dirs_of_lvl2 p) ds))"
proof (induction ds arbitrary: st)
  case Nil
  show ?case by (simp add: visits_refl)
next
  case (Cons d ds)
  show ?case
  proof (cases d)
    case (File n)
    then show ?thesis by (auto intro: visits_refl)
  next
    case (Dir n es)
    let ?st1 = "walk_startTimeDirs e (p @ [n]) es st"
    have 1: "visits e st ?st1 (job_dirs_of_entries (p @ [n]) es)"
      by (rule walk_startTimeDirs_visits)
    from Cons.IH [of ?st1] obtain ps where
      2: "visits e ?st1 (snd (walk_lvl2Dirs e p ds ?st1)) ps"
      and 3: "list_all IsDir ds \<longrightarrow>
                fst (walk_lvl2Dirs e p ds ?st1) = None \<and> ps = concat (map (job_dirs_of_lvl2 p) ds)"
      by blast
    from visits_trans [OF 1 2] 3 Dir show ?thesis
      by auto
  qed
qed

lemma walk_lvl1Dirs_visits:
  "\<exists>ps. visits e st (snd (walk_lvl1Dirs e p ds st)) ps \<and>
        (list_all readable_lvl1 ds \<longrightarrow>
           fst (walk_lvl1Dirs e p ds st) = None \<and> ps = concat (map (job_dirs_of_lvl1 p) ds))"
proof (induction ds arbitrary: st)
  case Nil
  show ?case by (simp add: visits_refl)
next
  case (Cons d ds)
  show ?case
  proof (cases d)
    case (File n)
    with Cons.IH [of st] show ?thesis
      by simp
  next
    case (Dir n es)
    obtain r st1 where w: "walk_lvl2Dirs e (p @ [n]) es st = (r, st1)"
      by (cases "walk_lvl2Dirs e (p @ [n]) es st")
    from walk_lvl2Dirs_visits [of e st "p @ [n]" es] w obtain ps1 where
      1: "visits e st st1 ps1"
      and 2: "list_all IsDir es \<longrightarrow> r = None \<and> ps1 = concat (map (job_dirs_of_lvl2 (p @ [n])) es)"
      by auto
    show ?thesis
    proof (cases r)
      case (Some err)
      with 1 2 w Dir show ?thesis
        by auto
    next
      case None
      from Cons.IH [of st1] obtain ps2 where
        3: "visits e st1 (snd (walk_lvl1Dirs e p ds st1)) ps2"
        and 4: "list_all readable_lvl1 ds \<longrightarrow>
                  fst (walk_lvl1Dirs e p ds st1) = None \<and> ps2 = concat (map (job_dirs_of_lvl1 p) ds)"
        by blast
      from visits_trans [OF 1 3] 2 4 None w Dir show ?thesis
        by auto
    qed
  qed
qed

lemma walk_clustersDir_visits:
  "\<exists>ps. visits e st (snd (walk_clustersDir e p ds st)) ps \<and>
        (list_all readable_cluster ds \<longrightarrow>
           fst (walk_clustersDir e p ds st) = None \<and> ps = concat (map (job_dirs_of_cluster p) ds))"
proof (induction ds arbitrary: st)
  case Nil
  show ?case by (simp add: visits_refl)
next
  case (Cons d ds)
  show ?case
  proof (cases d)
    case (File n)
    then show ?thesis
      by (auto intro: visits_refl)
  next
    case (Dir n es)
    obtain r st1 where w: "walk_lvl1Dirs e (p @ [n]) es st = (r, st1)"
      by (cases "walk_lvl1Dirs e (p @ [n]) es st")
    from walk_lvl1Dirs_visits [of e st "p @ [n]" es] w obtain ps1 where
      1: "visits e st st1 ps1"
      and 2: "list_all readable_lvl1 es \<longrightarrow> r = None \<and> ps1 = concat (map (job_dirs_of_lvl1 (p @ [n])) es)"
      by auto
    show ?thesis
    proof (cases r)
      case (Some err)
      with 1 2 w Dir show ?thesis
        by auto
    next
      case None
      from Cons.IH [of st1] obtain ps2 where
        3: "visits e st1 (snd (walk_clustersDir e p ds st1)) ps2"
        and 4: "list_all readable_cluster ds \<longrightarrow>
                  fst (walk_clustersDir e p ds st1) = None \<and> ps2 = concat (map (job_dirs_of_cluster p) ds)"
        by blast
      from visits_trans [OF 1 3] 2 4 None w Dir show ?thesis
        by auto
    qed
  qed
qed


text \<open>A walk that meets no job directory changes nothing.\<close>

lemma walk_startTimeDirs_none:
  "job_dirs_of_entries p es = [] \<Longrightarrow> walk_startTimeDirs e p es st = st"
  by (induction es arbitrary: st) (auto simp: job_dirs_of_entries_def split: if_splits)

lemma walk_lvl2Dirs_none:
  "list_all IsDir ds \<Longrightarrow> concat (map (job_dirs_of_lvl2 p) ds) = [] \<Longrightarrow>
   walk_lvl2Dirs e p ds st = (None, st)"
proof (induction ds arbitrary: st)
  case Nil
  show ?case by simp
next
  case (Cons d ds)
  then show ?case by (cases d) (simp_all add: walk_startTimeDirs_none)
qed

lemma walk_lvl1Dirs_none:
  "list_all readable_lvl1 ds \<Longrightarrow> concat (map (job_dirs_of_lvl1 p) ds) = [] \<Longrightarrow>
   walk_lvl1Dirs e p ds st = (None, st)"
proof (induction ds arbitrary: st)
  case Nil
  show ?case by simp
next
  case (Cons d ds)
  then show ?case by (cases d) (simp_all add: walk_lvl2Dirs_none)
qed

lemma walk_clustersDir_none:
  "list_all readable_cluster ds \<Longrightarrow> concat (map (job_dirs_of_cluster p) ds) = [] \<Longrightarrow>
   walk_clustersDir e p ds st = (None, st)"
proof (induction ds arbitrary: st)
  case Nil
  show ?case by simp
next
  case (Cons d ds)
  then show ?case by (cases d) (simp_all add: walk_lvl1Dirs_none)
qed


subsection \<open>\<^verbatim>\<open>InitDB\<close>\<close>

lemma exec_JobsDBSchema_empty: "exec_JobsDBSchema d = empty_db"
  by (simp add: exec_JobsDBSchema_def drop_tag_def drop_job_def drop_jobtag_def empty_db_def)


text \<open>The import of the example archive into a database that holds job 123.\<close>

lemma ex_InitDB:
  "InitDB ex_import_env ex_archive ex_db1 =
     (None, ex_imported_db,
      [ExecSchema, Begin, Commit, Begin,
       LoadJob [''job-archive'', ''testcluster'', ''0'', ''122'', ''123450000'']
         (Some (Failure ''unexpected end of JSON input'')),
       LogError [''job-archive'', ''testcluster'', ''0'', ''122'', ''123450000'']
         (Failure ''unexpected end of JSON input''),
       Commit, Begin,
       LoadJob [''job-archive'', ''testcluster'', ''0'', ''123'', ''123456789''] None,
       Commit, ExecIndexes])"
  by (simp add: InitDB_def ex_archive_def ex_import_env_def ex_imported_db_def ex_db1_def
      exec_JobsDBSchema_def drop_tag_def drop_job_def drop_jobtag_def
      handle_and_log_def handleDirectory_def commit_begin_def loadJob_def
      sql_insert_job_def sql_insert_tag_def sql_insert_jobtag_def job_checks_def job_states_def
      last_insert_rowid_def exec_JobsDbIndexes_def JobsDbIndexes_def
      MonitoringStatusArchivingSuccessful_def ex_row_def ex_job_def ex_empty_db_def
      job_columns.defs job_row.defs Let_def)


text \<open>The import of the archive whose job lists its tag twice.\<close>

lemma ex_InitDB_dup:
  "InitDB ex_import_env_dup ex_archive_dup ex_empty_db =
     (None, ex_imported_db,
      [ExecSchema, Begin, Commit, Begin,
       LoadJob [''job-archive'', ''testcluster'', ''0'', ''123'', ''123456789'']
         (Some (SqlConstraint ''UNIQUE constraint failed: jobtag.job_id, jobtag.tag_id'')),
       LogError [''job-archive'', ''testcluster'', ''0'', ''123'', ''123456789'']
         (SqlConstraint ''UNIQUE constraint failed: jobtag.job_id, jobtag.tag_id''),
       Commit, ExecIndexes])"
  by (simp add: InitDB_def ex_archive_dup_def ex_import_env_dup_def ex_imported_db_def
      exec_JobsDBSchema_def drop_tag_def drop_job_def drop_jobtag_def
      handle_and_log_def handleDirectory_def commit_begin_def loadJob_def
      sql_insert_job_def sql_insert_tag_def sql_insert_jobtag_def job_checks_def job_states_def
      last_insert_rowid_def exec_JobsDbIndexes_def JobsDbIndexes_def
      MonitoringStatusArchivingSuccessful_def ex_row_def ex_job_def ex_empty_db_def
      job_columns.defs job_row.defs Let_def)


text \<open>
  Claim C9, as the code has it. For an archive whose directories the walk can read,
  whatever the job files hold and however many of them fail to load: \<^verbatim>\<open>InitDB\<close> returns
  no error; \<^verbatim>\<open>loadJob\<close> is called on every job directory of the archive, in order, so
  the walk goes on after a failure; the failures logged are exactly the failed calls, in
  order; every job loaded without error is in the stored table \<^verbatim>\<open>job\<close> at the end; every
  row of that table is the job of a job directory of the archive; the job of a job
  directory is in the table exactly when its \<^verbatim>\<open>meta.json\<close> decodes and the job passes
  \<^verbatim>\<open>SanityChecks\<close> and the CHECK constraints of the table (\<open>loadable\<close>), whether or not
  the call of \<^verbatim>\<open>loadJob\<close> on the directory failed and was logged: a directory that fails
  to decode, to pass the checks or to be inserted leaves no row, and one that fails later,
  at its tags, keeps its row; the last two events are the commit of the transaction and
  the creation of the indexes, which happens once, after all calls of \<^verbatim>\<open>loadJob\<close>; and
  the database returned has the four indexes.
\<close>

theorem InitDB_keeps_rows_of_failed_directories:
  assumes "readable_archive archive"
  shows "\<exists>d' pre. InitDB e archive d = (None, d', pre @ [Commit, ExecIndexes]) \<and>
           ExecIndexes \<notin> set pre \<and>
           loaded_dirs pre = job_dirs archive \<and>
           logged_dirs pre = failed_dirs pre \<and>
           list_all (stored_job e d') (succeeded_dirs pre) \<and>
           list_all (\<lambda>r. list_ex (\<lambda>p. imported_from e p r) (job_dirs archive)) (job_table d') \<and>
           list_all (\<lambda>p. stored_job e d' p = loadable e p) (job_dirs archive) \<and>
           job_indexes d' = JobsDbIndexes"
proof -
  from assms obtain n clustersDir where archive: "archive = Dir n clustersDir"
    and readable: "list_all readable_cluster clustersDir"
    by (cases archive) simp_all
  let ?st0 = "\<lparr>st_db = empty_db, st_tx = empty_db, st_i = 0, st_tags = Map.empty,
               st_trace = [ExecSchema, Begin]\<rparr>"
  obtain r st where w: "walk_clustersDir e [n] clustersDir ?st0 = (r, st)"
    by (cases "walk_clustersDir e [n] clustersDir ?st0")
  from walk_clustersDir_visits [of e ?st0 "[n]" clustersDir] w readable
  have v: "visits e ?st0 st (job_dirs archive)" and r: "r = None"
    by (auto simp: archive)
  from v obtain evs where tr: "st_trace st = [ExecSchema, Begin] @ evs" and ev: "walk_events evs"
    and ld: "loaded_dirs evs = job_dirs archive"
    and sj: "list_all (stored_job e (st_tx st)) (succeeded_dirs evs)"
    and idx: "job_indexes (st_tx st) = []"
    unfolding visits_def by (auto simp: empty_db_def)
  from v have al: "list_all (stored_job e (st_tx st)) (filter (loadable e) (job_dirs archive))"
    unfolding visits_def by simp
  have rows: "list_all (\<lambda>r. list_ex (\<lambda>p. imported_from e p r) (job_dirs archive)) (job_table (st_tx st))"
    using visits_rows [OF v] by (auto simp: list_all_iff empty_db_def)
  let ?d' = "(st_tx st)\<lparr>job_indexes := JobsDbIndexes\<rparr>"
  let ?pre = "[ExecSchema, Begin] @ evs"
  have ix: "exec_JobsDbIndexes (st_tx st) = Inr ?d'"
    using idx by (simp add: exec_JobsDbIndexes_def JobsDbIndexes_def)
  have "InitDB e archive d = (None, ?d', ?pre @ [Commit, ExecIndexes])"
    using w r ix tr by (simp add: InitDB_def archive exec_JobsDBSchema_empty)
  moreover have "ExecIndexes \<notin> set ?pre" "logged_dirs ?pre = failed_dirs ?pre"
    using ev by (simp_all add: walk_events_def)
  moreover have "loaded_dirs ?pre = job_dirs archive"
    using ld by simp
  moreover have same: "stored_job e ?d' = stored_job e (st_tx st)"
    by (rule ext) (simp add: stored_job_def)
  then have "list_all (stored_job e ?d') (succeeded_dirs ?pre)"
    using sj by simp
  moreover have "list_all (\<lambda>r. list_ex (\<lambda>p. imported_from e p r) (job_dirs archive)) (job_table ?d')"
    using rows by simp
  moreover have "list_all (\<lambda>p. stored_job e ?d' p = loadable e p) (job_dirs archive)"
    using al stored_job_loadable [of e "st_tx st"] unfolding same by (auto simp: list_all_iff)
  ultimately show ?thesis by (intro exI [of _ ?d'] exI [of _ ?pre]) simp
qed

text \<open>
  The theorem at the example archive: the directory of job 122 fails and is logged, the
  directory of job 123 is loaded after it and its job is stored.
\<close>

theorem InitDB_keeps_rows_of_failed_directories_witness:
  "readable_archive ex_archive \<and>
   job_dirs ex_archive = [[''job-archive'', ''testcluster'', ''0'', ''122'', ''123450000''],
                          [''job-archive'', ''testcluster'', ''0'', ''123'', ''123456789'']] \<and>
   InitDB ex_import_env ex_archive ex_db1 =
     (None, ex_imported_db,
      [ExecSchema, Begin, Commit, Begin,
       LoadJob [''job-archive'', ''testcluster'', ''0'', ''122'', ''123450000'']
         (Some (Failure ''unexpected end of JSON input'')),
       LogError [''job-archive'', ''testcluster'', ''0'', ''122'', ''123450000'']
         (Failure ''unexpected end of JSON input''),
       Commit, Begin,
       LoadJob [''job-archive'', ''testcluster'', ''0'', ''123'', ''123456789''] None,
       Commit, ExecIndexes]) \<and>
   stored_job ex_import_env ex_imported_db [''job-archive'', ''testcluster'', ''0'', ''123'', ''123456789''] \<and>
   \<not> stored_job ex_import_env ex_imported_db [''job-archive'', ''testcluster'', ''0'', ''122'', ''123450000'']"
proof -
  have a: "readable_archive ex_archive"
    by (simp add: ex_archive_def)
  have b: "job_dirs ex_archive = [[''job-archive'', ''testcluster'', ''0'', ''122'', ''123450000''],
                                  [''job-archive'', ''testcluster'', ''0'', ''123'', ''123456789'']]"
    by (simp add: ex_archive_def job_dirs_of_entries_def)
  from InitDB_keeps_rows_of_failed_directories [OF a, of ex_import_env ex_db1] obtain d' pre where
    c: "InitDB ex_import_env ex_archive ex_db1 = (None, d', pre @ [Commit, ExecIndexes])"
    and d: "list_all (stored_job ex_import_env d') (succeeded_dirs pre)"
    and d2: "list_all (\<lambda>p. stored_job ex_import_env d' p = loadable ex_import_env p)
               (job_dirs ex_archive)"
    by blast
  have nl: "\<not> loadable ex_import_env [''job-archive'', ''testcluster'', ''0'', ''122'', ''123450000'']"
    by (simp add: loadable_def ex_import_env_def)
  from c have "d' = ex_imported_db"
    and "pre = [ExecSchema, Begin, Commit, Begin,
       LoadJob [''job-archive'', ''testcluster'', ''0'', ''122'', ''123450000'']
         (Some (Failure ''unexpected end of JSON input'')),
       LogError [''job-archive'', ''testcluster'', ''0'', ''122'', ''123450000'']
         (Failure ''unexpected end of JSON input''),
       Commit, Begin,
       LoadJob [''job-archive'', ''testcluster'', ''0'', ''123'', ''123456789''] None]"
    by (simp_all add: ex_InitDB)
  with d d2 b nl have "stored_job ex_import_env ex_imported_db
                 [''job-archive'', ''testcluster'', ''0'', ''123'', ''123456789'']"
    and "\<not> stored_job ex_import_env ex_imported_db
                 [''job-archive'', ''testcluster'', ''0'', ''122'', ''123450000'']"
    by simp_all
  with a b show ?thesis by (simp add: ex_InitDB)
qed


text \<open>
  Claim C9 as stated fails: the \<^verbatim>\<open>meta.json\<close> of the one job directory of the archive
  lists the tag of the job twice. The second insertion into \<^verbatim>\<open>jobtag\<close> fails, so the
  call of \<^verbatim>\<open>loadJob\<close> fails and is logged; but the directory is not skipped: the database
  returned holds its job row, its tag and their association.
\<close>

theorem InitDB_failed_directory_counterexample:
  "InitDB ex_import_env_dup ex_archive_dup ex_empty_db =
     (None, ex_imported_db,
      [ExecSchema, Begin, Commit, Begin,
       LoadJob [''job-archive'', ''testcluster'', ''0'', ''123'', ''123456789'']
         (Some (SqlConstraint ''UNIQUE constraint failed: jobtag.job_id, jobtag.tag_id'')),
       LogError [''job-archive'', ''testcluster'', ''0'', ''123'', ''123456789'']
         (SqlConstraint ''UNIQUE constraint failed: jobtag.job_id, jobtag.tag_id''),
       Commit, ExecIndexes]) \<and>
   job_table ex_imported_db =
     [ex_row 1 (ex_job\<lparr>job_state := ''completed'', duration := 1000, monitoring_status := 3\<rparr>)] \<and>
   tag_table ex_imported_db =
     [\<lparr>tag_rowid = 1, tag_type = ''testTagType'', tag_name = ''testTagName''\<rparr>] \<and>
   jobtag_table ex_imported_db = [(1, 1)]"
  by (simp add: ex_InitDB_dup) (simp add: ex_imported_db_def)


text \<open>
  Claim C10. \<^verbatim>\<open>InitDB\<close> begins by executing \<^verbatim>\<open>JobsDBSchema\<close>, once, and what it returns
  does not depend on the tables it was called with: the result is the one it has on the
  empty database. When the archive cannot be read, it returns the error and leaves the
  three tables empty; when the archive has no job directory, it succeeds and leaves them
  empty.
\<close>

theorem InitDB_discards_previous_tables:
  "InitDB e archive d = InitDB e archive empty_db \<and>
   (\<exists>rest. snd (snd (InitDB e archive d)) = ExecSchema # rest \<and> ExecSchema \<notin> set rest) \<and>
   (\<forall>err. ReadDir archive = Inl err \<longrightarrow> InitDB e archive d = (Some err, empty_db, [ExecSchema])) \<and>
   (readable_archive archive \<and> job_dirs archive = [] \<longrightarrow>
      InitDB e archive d =
        (None, empty_db\<lparr>job_indexes := JobsDbIndexes\<rparr>, [ExecSchema, Begin, Commit, ExecIndexes]))"
proof (intro conjI allI impI)
  show "InitDB e archive d = InitDB e archive empty_db"
    by (simp add: InitDB_def exec_JobsDBSchema_empty)
next
  show "\<exists>rest. snd (snd (InitDB e archive d)) = ExecSchema # rest \<and> ExecSchema \<notin> set rest"
  proof (cases archive)
    case (File n)
    then show ?thesis by (simp add: InitDB_def)
  next
    case (Dir n clustersDir)
    let ?st0 = "\<lparr>st_db = empty_db, st_tx = empty_db, st_i = 0, st_tags = Map.empty,
                 st_trace = [ExecSchema, Begin]\<rparr>"
    obtain r st where w: "walk_clustersDir e [n] clustersDir ?st0 = (r, st)"
      by (cases "walk_clustersDir e [n] clustersDir ?st0")
    from walk_clustersDir_visits [of e ?st0 "[n]" clustersDir] w
    obtain evs where tr: "st_trace st = [ExecSchema, Begin] @ evs" and ev: "walk_events evs"
      unfolding visits_def by auto
    from ev have "ExecSchema \<notin> set evs" by (simp add: walk_events_def)
    with w tr Dir show ?thesis
      by (auto simp: InitDB_def exec_JobsDBSchema_empty split: option.splits sum.splits)
  qed
next
  fix err
  assume "ReadDir archive = Inl err"
  then show "InitDB e archive d = (Some err, empty_db, [ExecSchema])"
    by (simp add: InitDB_def exec_JobsDBSchema_empty)
next
  assume h: "readable_archive archive \<and> job_dirs archive = []"
  then obtain n clustersDir where archive: "archive = Dir n clustersDir"
    and readable: "list_all readable_cluster clustersDir"
    and none: "concat (map (job_dirs_of_cluster [n]) clustersDir) = []"
    by (cases archive) simp_all
  show "InitDB e archive d =
        (None, empty_db\<lparr>job_indexes := JobsDbIndexes\<rparr>, [ExecSchema, Begin, Commit, ExecIndexes])"
    by (simp add: InitDB_def archive exec_JobsDBSchema_empty
        walk_clustersDir_none [OF readable none] exec_JobsDbIndexes_def JobsDbIndexes_def empty_db_def)
qed


text \<open>
  The theorem at a database with a job, a tag and their association: an archive path that
  is a regular file, an archive without job directories, and the example archive.
\<close>

theorem InitDB_discards_previous_tables_witness:
  "job_table ex_db1_tagged \<noteq> [] \<and> tag_table ex_db1_tagged \<noteq> [] \<and> jobtag_table ex_db1_tagged \<noteq> [] \<and>
   InitDB ex_import_env (File ''job-archive'') ex_db1_tagged =
     (Some (Failure ''job-archive: not a directory''), empty_db, [ExecSchema]) \<and>
   InitDB ex_import_env (Dir ''job-archive'' [Dir ''testcluster'' [File ''cluster.json'']]) ex_db1_tagged =
     (None, empty_db\<lparr>job_indexes := JobsDbIndexes\<rparr>, [ExecSchema, Begin, Commit, ExecIndexes]) \<and>
   InitDB ex_import_env ex_archive ex_db1_tagged = InitDB ex_import_env ex_archive empty_db"
proof -
  have a: "ReadDir (File ''job-archive'') = Inl (Failure ''job-archive: not a directory'')"
    by simp
  have b: "readable_archive (Dir ''job-archive'' [Dir ''testcluster'' [File ''cluster.json'']]) \<and>
           job_dirs (Dir ''job-archive'' [Dir ''testcluster'' [File ''cluster.json'']]) = []"
    by simp
  have c: "job_table ex_db1_tagged \<noteq> [] \<and> tag_table ex_db1_tagged \<noteq> [] \<and> jobtag_table ex_db1_tagged \<noteq> []"
    by (simp add: ex_db1_tagged_def ex_db1_def)
  show ?thesis
    using a b c
      InitDB_discards_previous_tables [of ex_import_env "File ''job-archive''" ex_db1_tagged]
      InitDB_discards_previous_tables [of ex_import_env
        "Dir ''job-archive'' [Dir ''testcluster'' [File ''cluster.json'']]" ex_db1_tagged]
      InitDB_discards_previous_tables [of ex_import_env ex_archive ex_db1_tagged]
    by blast
qed

end
